theory Spec2Isabelle
  imports Main "HOL-Library.Word"
begin

unbundle bit_operations_syntax

section \<open>Bytes, characters and the library functions used by \<open>hops/tls.py\<close>\<close>

type_synonym byte = "8 word"

definition LF :: char where "LF = CHR 0x0A"
definition CR :: char where "CR = CHR 0x0D"

subsection \<open>\<open>base64.b64encode\<close>\<close>

text \<open>
  The standard alphabet of RFC 4648, indexed by the 6-bit value. Python's
  \<open>base64.b64encode\<close> takes three bytes at a time, cuts the 24 bits into four 6-bit
  values and pads a final group of one or two bytes with \<open>=\<close>.
\<close>

definition b64_table :: string where
  "b64_table = ''ABCDEFGHIJKLMNOPQRSTUVWXYZabcdefghijklmnopqrstuvwxyz0123456789+/''"

definition b64_char :: "byte \<Rightarrow> char" where
  "b64_char i = b64_table ! unat i"

fun b64encode :: "byte list \<Rightarrow> string" where
  "b64encode (a # b # c # rest) =
     [b64_char (drop_bit 2 a),
      b64_char (push_bit 4 (a AND 3) OR drop_bit 4 b),
      b64_char (push_bit 2 (b AND 15) OR drop_bit 6 c),
      b64_char (c AND 63)] @ b64encode rest"
| "b64encode [a, b] =
     [b64_char (drop_bit 2 a),
      b64_char (push_bit 4 (a AND 3) OR drop_bit 4 b),
      b64_char (push_bit 2 (b AND 15)),
      CHR ''='']"
| "b64encode [a] =
     [b64_char (drop_bit 2 a),
      b64_char (push_bit 4 (a AND 3)),
      CHR ''='', CHR ''='']"
| "b64encode [] = []"

subsection \<open>\<open>textwrap.wrap\<close> and \<open>str.join\<close>\<close>

text \<open>
  \<open>textwrap.wrap(text, width)\<close> on a text that holds no whitespace and no hyphen: the
  text is one word, and a word longer than \<open>width\<close> is broken every \<open>width\<close>
  characters (\<open>break_long_words\<close> is on by default); the empty text gives no line at
  all. The Base64 alphabet has neither whitespace nor hyphen (lemma
  \<open>b64encode_plain\<close> below), so this is the library's behaviour at the only call in
  the source, which passes the width 64. The library rejects a width of 0 with
  ValueError; the model gives no line there.
\<close>

function textwrap_wrap :: "string \<Rightarrow> nat \<Rightarrow> string list" where
  "textwrap_wrap text width =
     (if width = 0 \<or> text = [] then []
      else if length text \<le> width then [text]
      else take width text # textwrap_wrap (drop width text) width)"
  by pat_completeness auto
termination
  by (relation "measure (\<lambda>(text, width). length text)") auto

fun str_join :: "string \<Rightarrow> string list \<Rightarrow> string" where
  "str_join sep [] = []"
| "str_join sep [x] = x"
| "str_join sep (x # y # ys) = x @ sep @ str_join sep (y # ys)"

section \<open>PEM encoding\<close>

text \<open>\<open>bytes_to_pem_str(der_bytes, pem_type)\<close>, statement by statement.\<close>

definition bytes_to_pem_str :: "byte list \<Rightarrow> string \<Rightarrow> string" where
  "bytes_to_pem_str der_bytes pem_type =
     (let pem_str = [];
          pem_str = pem_str @ (''-----BEGIN '' @ pem_type @ ''-----'') @ [LF];
          pem_str = pem_str @ str_join [CR, LF] (textwrap_wrap (b64encode der_bytes) 64) @ [LF];
          pem_str = pem_str @ (''-----END '' @ pem_type @ ''-----'') @ [LF]
      in pem_str)"

section \<open>The key store object and its conversion\<close>

text \<open>
  The object returned by \<open>jks.KeyStore.load\<close>, with the attributes the source reads:
  \<open>private_keys\<close> and \<open>certs\<close> are dictionaries, iterated by \<open>items()\<close> in the
  order the library built them, so they are association lists here. A certificate of a
  chain is a pair of its type (such as X.509) and its DER bytes.
\<close>

record private_key_entry =
  algorithm_oid :: "nat list"
  pkey :: "byte list"
  pkey_pkcs8 :: "byte list"
  cert_chain :: "(string \<times> byte list) list"

record trusted_cert_entry =
  cert_type :: string
  cert :: "byte list"

record key_store =
  private_keys :: "(string \<times> private_key_entry) list"
  certs :: "(string \<times> trusted_cert_entry) list"

text \<open>\<open>jks.util.RSA_ENCRYPTION_OID\<close>, the object identifier 1.2.840.113549.1.1.1.\<close>

definition RSA_ENCRYPTION_OID :: "nat list" where
  "RSA_ENCRYPTION_OID = [1, 2, 840, 113549, 1, 1, 1]"

text \<open>The inner loop \<open>for c in pk.cert_chain\<close>, with \<open>pem_str\<close> as accumulator.\<close>

fun cert_chain_loop :: "string \<Rightarrow> (string \<times> byte list) list \<Rightarrow> string" where
  "cert_chain_loop pem_str [] = pem_str"
| "cert_chain_loop pem_str (c # cs) =
     cert_chain_loop (pem_str @ bytes_to_pem_str (snd c) ''CERTIFICATE'') cs"

text \<open>The loop \<open>for alias, pk in ks.private_keys.items()\<close>.\<close>

fun private_keys_loop :: "string \<Rightarrow> (string \<times> private_key_entry) list \<Rightarrow> string" where
  "private_keys_loop pem_str [] = pem_str"
| "private_keys_loop pem_str ((alias, pk) # rest) =
     (let pem_str =
            (if algorithm_oid pk = RSA_ENCRYPTION_OID
             then pem_str @ bytes_to_pem_str (pkey pk) ''RSA PRIVATE KEY''
             else pem_str @ bytes_to_pem_str (pkey_pkcs8 pk) ''PRIVATE KEY'');
          pem_str = cert_chain_loop pem_str (cert_chain pk)
      in private_keys_loop pem_str rest)"

text \<open>The loop \<open>for alias, c in ks.certs.items()\<close>.\<close>

fun certs_loop :: "string \<Rightarrow> (string \<times> trusted_cert_entry) list \<Rightarrow> string" where
  "certs_loop pem_str [] = pem_str"
| "certs_loop pem_str ((alias, c) # rest) =
     certs_loop (pem_str @ bytes_to_pem_str (cert c) ''CERTIFICATE'') rest"

section \<open>Files, the working directory and errors\<close>

text \<open>
  The part of the process state the module touches: the working directory, the files
  (a path holds a file with its content, a directory, or nothing) and, so that what
  was read and written, and in which order, can be stated, the list of calls made on
  the file system, oldest first. The content of a file is what \<open>read()\<close> delivers
  for it: the text for the password file, the bytes for a key store.
\<close>

datatype node = File string | Dir

datatype event =
    Exists string             \<comment> \<open>\<open>os.path.exists(path)\<close>\<close>
  | OpenRead string           \<comment> \<open>\<open>open(path)\<close> followed by \<open>read()\<close>\<close>
  | Load string string        \<comment> \<open>\<open>jks.KeyStore.load(path, password, ...)\<close>\<close>
  | OpenWrite string          \<comment> \<open>\<open>open(path, "w")\<close>\<close>
  | Write string string       \<comment> \<open>\<open>f.write(text)\<close> on the file opened at the path\<close>

datatype error =
    AssertionError string     \<comment> \<open>raised by the module itself when a file is absent\<close>
  | IOError string            \<comment> \<open>raised by \<open>open\<close>\<close>
  | KeystoreException string  \<comment> \<open>raised by the key store library\<close>

record world =
  cwd :: string
  files :: "string \<Rightarrow> node option"
  trace :: "event list"

definition log_event :: "event \<Rightarrow> world \<Rightarrow> world" where
  "log_event ev w = w\<lparr>trace := trace w @ [ev]\<rparr>"

definition os_path_exists :: "string \<Rightarrow> world \<Rightarrow> bool \<times> world" where
  "os_path_exists path w = (files w path \<noteq> None, log_event (Exists path) w)"

text \<open>\<open>with open(path) as f: f.read()\<close>: fails on a missing path and on a directory.\<close>

definition open_read :: "string \<Rightarrow> world \<Rightarrow> (error + string) \<times> world" where
  "open_read path w =
     ((case files w path of
         None \<Rightarrow> Inl (IOError path)
       | Some Dir \<Rightarrow> Inl (IOError path)
       | Some (File content) \<Rightarrow> Inr content),
      log_event (OpenRead path) w)"

text \<open>\<open>open(path, "w")\<close>: fails on a directory, creates or truncates the file otherwise.\<close>

definition open_write :: "string \<Rightarrow> world \<Rightarrow> (error + unit) \<times> world" where
  "open_write path w =
     (case files w path of
        Some Dir \<Rightarrow> (Inl (IOError path), log_event (OpenWrite path) w)
      | _ \<Rightarrow> (Inr (), (log_event (OpenWrite path) w)\<lparr>files := (files w)(path \<mapsto> File [])\<rparr>))"

text \<open>
  \<open>f.write(text)\<close> on the freshly truncated file, and the close at the end of
  \<open>with\<close>. Once the file is open the write succeeds: there is no full disk here.
\<close>

definition file_write :: "string \<Rightarrow> string \<Rightarrow> world \<Rightarrow> world" where
  "file_write path text w =
     (log_event (Write path text) w)\<lparr>files := (files w)(path \<mapsto> File text)\<rparr>"

text \<open>
  The names in \<open>hops.constants.SSL_CONFIG\<close>. The module \<open>hops/constants.py\<close> is not
  part of the code verified here, so the five file names are parameters.
\<close>

record ssl_config =
  K_CERTIFICATE_CONFIG :: string
  T_CERTIFICATE_CONFIG :: string
  CRYPTO_MATERIAL_PASSWORD :: string
  PEM_K_CERTIFICATE_CONFIG :: string
  PEM_T_CERTIFICATE_CONFIG :: string

section \<open>Reading the password\<close>

text \<open>Python's \<open>string.printable\<close>: digits, letters, punctuation and whitespace.\<close>

definition string_digits :: string where
  "string_digits = ''0123456789''"

definition string_ascii_letters :: string where
  "string_ascii_letters = ''abcdefghijklmnopqrstuvwxyz'' @ ''ABCDEFGHIJKLMNOPQRSTUVWXYZ''"

definition string_punctuation :: string where
  "string_punctuation =
     ''!'' @ [CHR 0x22] @ ''#$%&'' @ [CHR 0x27] @ ''()*+,-./:;<=>?@['' @ [CHR 0x5C] @ '']^_'' @
     [CHR 0x60] @ ''{|}~''"

definition string_whitespace :: string where
  "string_whitespace = [CHR 0x20, CHR 0x09, CHR 0x0A, CHR 0x0D, CHR 0x0B, CHR 0x0C]"

definition string_printable :: string where
  "string_printable =
     string_digits @ string_ascii_letters @ string_punctuation @ string_whitespace"

text \<open>The predicate of the \<open>filter\<close> call on line 50.\<close>

definition keep_char :: "char \<Rightarrow> bool" where
  "keep_char x = (x \<in> set string_printable \<and> \<not> x = CHR ''@'')"

text \<open>\<open>_get_cert_pw()\<close>.\<close>

definition get_cert_pw :: "ssl_config \<Rightarrow> world \<Rightarrow> (error + string) \<times> world" where
  "get_cert_pw cfg w =
     (let pwd_path = cwd w @ ''/'' @ CRYPTO_MATERIAL_PASSWORD cfg
      in case os_path_exists pwd_path w of
           (False, w1) \<Rightarrow>
             (Inl (AssertionError (''material_passwd is not present in directory: '' @ pwd_path)), w1)
         | (True, w1) \<Rightarrow>
             (case open_read pwd_path w1 of
                (Inl e, w2) \<Rightarrow> (Inl e, w2)
              | (Inr key_store_pwd, w2) \<Rightarrow> (Inr (filter keep_char key_store_pwd), w2)))"

definition get_key_store_pwd :: "ssl_config \<Rightarrow> world \<Rightarrow> (error + string) \<times> world" where
  "get_key_store_pwd cfg w = get_cert_pw cfg w"

definition get_trust_store_pwd :: "ssl_config \<Rightarrow> world \<Rightarrow> (error + string) \<times> world" where
  "get_trust_store_pwd cfg w = get_cert_pw cfg w"

section \<open>Converting and writing\<close>

text \<open>
  \<open>jks.KeyStore.load(path, pw, try_decrypt_keys=True)\<close> reads the file as bytes and
  hands them with the password to the library's parser, which checks the format and
  the integrity of the store and decrypts its keys. The parser is the parameter
  \<open>loads\<close>: from the bytes and the password to a key store or an error.
\<close>

type_synonym jks_loads = "string \<Rightarrow> string \<Rightarrow> error + key_store"

definition KeyStore_load ::
  "jks_loads \<Rightarrow> string \<Rightarrow> string \<Rightarrow> world \<Rightarrow> (error + key_store) \<times> world" where
  "KeyStore_load loads path pw w =
     ((case files w path of
         Some (File input_bytes) \<Rightarrow> loads input_bytes pw
       | _ \<Rightarrow> Inl (IOError path)),
      log_event (Load path pw) w)"

text \<open>\<open>convert_jks_to_pem(jks_path, pw)\<close>.\<close>

definition convert_jks_to_pem ::
  "jks_loads \<Rightarrow> string \<Rightarrow> string \<Rightarrow> world \<Rightarrow> (error + string) \<times> world" where
  "convert_jks_to_pem loads jks_path pw w =
     (case KeyStore_load loads jks_path pw w of
        (Inl e, w1) \<Rightarrow> (Inl e, w1)
      | (Inr ks, w1) \<Rightarrow>
          (let pem_str = [];
               pem_str = private_keys_loop pem_str (private_keys ks);
               pem_str = certs_loop pem_str (certs ks)
           in (Inr pem_str, w1)))"

text \<open>\<open>write_pem(jks_path, pw, output_path)\<close>.\<close>

definition write_pem ::
  "jks_loads \<Rightarrow> string \<Rightarrow> string \<Rightarrow> string \<Rightarrow> world \<Rightarrow> (error + unit) \<times> world" where
  "write_pem loads jks_path pw output_path w =
     (case convert_jks_to_pem loads jks_path pw w of
        (Inl e, w1) \<Rightarrow> (Inl e, w1)
      | (Inr pem_str, w1) \<Rightarrow>
          (case open_write output_path w1 of
             (Inl e, w2) \<Rightarrow> (Inl e, w2)
           | (Inr u, w2) \<Rightarrow> (Inr (), file_write output_path pem_str w2)))"

text \<open>
  \<open>write_pems()\<close>. Python evaluates the arguments of a call before the call: the
  password is read before each \<open>write_pem\<close> starts.
\<close>

definition write_pems :: "ssl_config \<Rightarrow> jks_loads \<Rightarrow> world \<Rightarrow> (error + unit) \<times> world" where
  "write_pems cfg loads w =
     (let k_jks_path = cwd w @ ''/'' @ K_CERTIFICATE_CONFIG cfg;
          t_jks_path = cwd w @ ''/'' @ T_CERTIFICATE_CONFIG cfg;
          k_pem_path = cwd w @ ''/'' @ PEM_K_CERTIFICATE_CONFIG cfg;
          t_pem_path = cwd w @ ''/'' @ PEM_T_CERTIFICATE_CONFIG cfg
      in case get_key_store_pwd cfg w of
           (Inl e, w1) \<Rightarrow> (Inl e, w1)
         | (Inr k_pw, w1) \<Rightarrow>
             (case write_pem loads k_jks_path k_pw k_pem_path w1 of
                (Inl e, w2) \<Rightarrow> (Inl e, w2)
              | (Inr u, w2) \<Rightarrow>
                  (case get_trust_store_pwd cfg w2 of
                     (Inl e, w3) \<Rightarrow> (Inl e, w3)
                   | (Inr t_pw, w3) \<Rightarrow> write_pem loads t_jks_path t_pw t_pem_path w3)))"

section \<open>Notions of the specification\<close>

text \<open>
  The definitions of this section do not come from the source. They say what the
  specification's words mean, so that the source's functions can be compared with them.
\<close>

subsection \<open>Base64 decoding\<close>

text \<open>
  A strict decoder for RFC 4648: groups of four characters of the alphabet, the last
  group possibly padded with one or two \<open>=\<close>; anything else is rejected.
\<close>

definition b64_index :: "char \<Rightarrow> byte option" where
  "b64_index c = map_of (zip b64_table (map of_nat [0..<64])) c"

fun b64decode :: "string \<Rightarrow> byte list option" where
  "b64decode (c1 # c2 # c3 # c4 # rest) =
     (case (b64_index c1, b64_index c2) of
        (Some i1, Some i2) \<Rightarrow>
          (let a = push_bit 2 i1 OR drop_bit 4 i2
           in if rest = [] \<and> c3 = CHR ''='' \<and> c4 = CHR ''='' then Some [a]
              else case b64_index c3 of
                None \<Rightarrow> None
              | Some i3 \<Rightarrow>
                  (let b = push_bit 4 (i2 AND 15) OR drop_bit 2 i3
                   in if rest = [] \<and> c4 = CHR ''='' then Some [a, b]
                      else case b64_index c4 of
                        None \<Rightarrow> None
                      | Some i4 \<Rightarrow>
                          (case b64decode rest of
                             None \<Rightarrow> None
                           | Some bs \<Rightarrow> Some (a # b # (push_bit 6 (i3 AND 3) OR i4) # bs))))
      | _ \<Rightarrow> None)"
| "b64decode [] = Some []"
| "b64decode _ = None"

subsection \<open>Hard wrapping\<close>

text \<open>
  A text cut into lines of exactly \<open>n\<close> characters, the last line holding what is left:
  line \<open>i\<close> is the characters from \<open>i * n\<close> up to \<open>(i + 1) * n\<close>.
\<close>

definition hard_wrap :: "nat \<Rightarrow> string \<Rightarrow> string list" where
  "hard_wrap n s = map (\<lambda>i. take n (drop (i * n) s)) [0..<(length s + n - 1) div n]"

subsection \<open>Reading PEM text\<close>

text \<open>Taking a given text off the front, or off the end, of another.\<close>

definition strip_prefix :: "string \<Rightarrow> string \<Rightarrow> string option" where
  "strip_prefix p s = (if take (length p) s = p then Some (drop (length p) s) else None)"

definition strip_suffix :: "string \<Rightarrow> string \<Rightarrow> string option" where
  "strip_suffix p s =
     (if length p \<le> length s \<and> drop (length s - length p) s = p
      then Some (take (length s - length p) s) else None)"

definition is_line_terminator :: "char \<Rightarrow> bool" where
  "is_line_terminator c = (c = CR \<or> c = LF)"

text \<open>
  One block with a known label: the begin marker line in front and the end marker line
  at the end are taken off, the line terminators are removed from what is between them,
  and the rest is decoded.
\<close>

definition pem_block_decode :: "string \<Rightarrow> string \<Rightarrow> byte list option" where
  "pem_block_decode label text =
     (case strip_prefix (''-----BEGIN '' @ label @ ''-----'' @ [LF]) text of
        None \<Rightarrow> None
      | Some rest \<Rightarrow>
          (case strip_suffix (''-----END '' @ label @ ''-----'' @ [LF]) rest of
             None \<Rightarrow> None
           | Some body \<Rightarrow> b64decode (filter (\<lambda>c. \<not> is_line_terminator c) body)))"

text \<open>The lines of a text: the pieces between line feeds.\<close>

fun split_lines :: "string \<Rightarrow> string list" where
  "split_lines [] = [[]]"
| "split_lines (c # cs) =
     (let ls = split_lines cs
      in if c = LF then [] # ls else (c # hd ls) # tl ls)"

text \<open>
  A body line as wrapping a Base64 text gives it: not empty, and free of line terminators
  and of hyphens.
\<close>

definition plain_line :: "string \<Rightarrow> bool" where
  "plain_line l = (l \<noteq> [] \<and> (\<forall>c \<in> set l. c \<noteq> LF \<and> c \<noteq> CR \<and> c \<noteq> CHR ''-''))"

definition begin_label :: "string \<Rightarrow> string option" where
  "begin_label line =
     (case strip_prefix ''-----BEGIN '' line of
        None \<Rightarrow> None
      | Some rest \<Rightarrow> strip_suffix ''-----'' rest)"

text \<open>
  A reader for a whole PEM text, line by line: outside a block it expects a begin
  marker; inside the block labelled \<open>L\<close> it collects the lines, without their carriage
  returns, until the end marker of \<open>L\<close>, and decodes what it has collected. It gives
  the blocks in the order of the text, each with its label and its decoded bytes, or
  nothing if the text is not a sequence of well-formed blocks.
\<close>

fun read_pem :: "(string \<times> string) option \<Rightarrow> string list \<Rightarrow> (string \<times> byte list) list option" where
  "read_pem None [] = Some []"
| "read_pem (Some cur) [] = None"
| "read_pem None (l # ls) =
     (if l = [] \<and> ls = [] then Some []
      else case begin_label l of
        None \<Rightarrow> None
      | Some L \<Rightarrow> read_pem (Some (L, [])) ls)"
| "read_pem (Some (L, body)) (l # ls) =
     (if l = ''-----END '' @ L @ ''-----''
      then (case b64decode body of
              None \<Rightarrow> None
            | Some d \<Rightarrow>
                (case read_pem None ls of
                   None \<Rightarrow> None
                 | Some blocks \<Rightarrow> Some ((L, d) # blocks)))
      else read_pem (Some (L, body @ filter (\<lambda>c. \<not> is_line_terminator c) l)) ls)"

definition parse_pem :: "string \<Rightarrow> (string \<times> byte list) list option" where
  "parse_pem text = read_pem None (split_lines text)"

subsection \<open>The blocks a key store is to give\<close>

text \<open>The text of a sequence of blocks, each given by its label and its bytes.\<close>

definition render_blocks :: "(string \<times> byte list) list \<Rightarrow> string" where
  "render_blocks blocks = concat (map (\<lambda>(label, d). bytes_to_pem_str d label) blocks)"

text \<open>
  What the specification asks of a key store: for every private-key entry its key block,
  labelled by the algorithm, then the certificates of its chain in chain order; after
  all of them the trusted certificates, in the order of the store.
\<close>

definition key_block :: "private_key_entry \<Rightarrow> string \<times> byte list" where
  "key_block pk =
     (if algorithm_oid pk = RSA_ENCRYPTION_OID
      then (''RSA PRIVATE KEY'', pkey pk)
      else (''PRIVATE KEY'', pkey_pkcs8 pk))"

definition chain_blocks :: "private_key_entry \<Rightarrow> (string \<times> byte list) list" where
  "chain_blocks pk = map (\<lambda>c. (''CERTIFICATE'', snd c)) (cert_chain pk)"

definition expected_blocks :: "key_store \<Rightarrow> (string \<times> byte list) list" where
  "expected_blocks ks =
     concat (map (\<lambda>(alias, pk). key_block pk # chain_blocks pk) (private_keys ks)) @
     map (\<lambda>(alias, c). (''CERTIFICATE'', cert c)) (certs ks)"

text \<open>The bytes a key store holds, in the order of \<open>expected_blocks\<close>.\<close>

definition store_bytes :: "key_store \<Rightarrow> byte list list" where
  "store_bytes ks =
     concat (map (\<lambda>(alias, pk).
                    (if algorithm_oid pk = RSA_ENCRYPTION_OID then pkey pk else pkey_pkcs8 pk) #
                    map snd (cert_chain pk)) (private_keys ks)) @
     map (\<lambda>(alias, c). cert c) (certs ks)"

subsection \<open>Printable characters\<close>

text \<open>The printable characters of ASCII are the codes 0x20 (space) to 0x7E (tilde).\<close>

definition ascii_printable :: "char \<Rightarrow> bool" where
  "ascii_printable c = (0x20 \<le> (of_char c :: nat) \<and> (of_char c :: nat) \<le> 0x7E)"

definition spec_keep :: "char \<Rightarrow> bool" where
  "spec_keep c = (ascii_printable c \<and> c \<noteq> CHR ''@'')"

text \<open>
  The five control characters that Python counts as whitespace: horizontal tab, line
  feed, vertical tab, form feed and carriage return, the codes 9 to 13.
\<close>

definition ascii_control_whitespace :: "char \<Rightarrow> bool" where
  "ascii_control_whitespace c = (9 \<le> (of_char c :: nat) \<and> (of_char c :: nat) \<le> 13)"

definition printable_or_whitespace_keep :: "char \<Rightarrow> bool" where
  "printable_or_whitespace_keep c =
     ((ascii_printable c \<or> ascii_control_whitespace c) \<and> c \<noteq> CHR ''@'')"

section \<open>A small deployment, for concrete runs\<close>

text \<open>
  An identity store with two private-key entries, the first under the alias \<open>zulu\<close>
  with an RSA key and a chain of two certificates, the second under the alias \<open>alpha\<close>
  with an elliptic-curve key and no chain, followed by one trusted certificate; a trust
  store with two trusted certificates; a parser that knows the two store files and the
  password \<open>secret\<close>; and a working directory holding the stores, an identity PEM file
  left by an earlier run, and the password file.
\<close>

definition example_store :: key_store where
  "example_store =
     \<lparr>private_keys =
        [(''zulu'', \<lparr>algorithm_oid = [1, 2, 840, 113549, 1, 1, 1],
                     pkey = [0x30, 0x82, 0x04],
                     pkey_pkcs8 = [0x30, 0x82, 0x04, 0xBE],
                     cert_chain = [(''X.509'', [0x4C, 0x45, 0x41, 0x46]), (''X.509'', [0x52, 0x4F])]\<rparr>),
         (''alpha'', \<lparr>algorithm_oid = [1, 2, 840, 10045, 2, 1],
                      pkey = [0x04, 0x20],
                      pkey_pkcs8 = [0x30, 0x41, 0x02],
                      cert_chain = []\<rparr>)],
      certs = [(''t1'', \<lparr>cert_type = ''X.509'', cert = [0x54]\<rparr>)]\<rparr>"

definition example_trust_store :: key_store where
  "example_trust_store =
     \<lparr>private_keys = [],
      certs = [(''root'', \<lparr>cert_type = ''X.509'', cert = [0x43, 0x41]\<rparr>),
               (''hops'', \<lparr>cert_type = ''X.509'', cert = [0x48]\<rparr>)]\<rparr>"

definition example_loads :: jks_loads where
  "example_loads input_bytes pw =
     (if pw = ''secret'' then
        (if input_bytes = ''identity'' then Inr example_store
         else if input_bytes = ''trust'' then Inr example_trust_store
         else Inl (KeystoreException ''bad format''))
      else Inl (KeystoreException ''bad password''))"

text \<open>The same parser, except that the trust store does not accept the password.\<close>

definition example_loads_trust_locked :: jks_loads where
  "example_loads_trust_locked input_bytes pw =
     (if input_bytes = ''trust'' then Inl (KeystoreException ''bad password'')
      else example_loads input_bytes pw)"

definition example_cfg :: ssl_config where
  "example_cfg =
     \<lparr>K_CERTIFICATE_CONFIG = ''k_certificate'',
      T_CERTIFICATE_CONFIG = ''t_certificate'',
      CRYPTO_MATERIAL_PASSWORD = ''material_passwd'',
      PEM_K_CERTIFICATE_CONFIG = ''k_certificate.pem'',
      PEM_T_CERTIFICATE_CONFIG = ''t_certificate.pem''\<rparr>"

definition example_files :: "string \<Rightarrow> string \<Rightarrow> node option" where
  "example_files password_content =
     [''/srv/k_certificate'' \<mapsto> File ''identity'',
      ''/srv/t_certificate'' \<mapsto> File ''trust'',
      ''/srv/k_certificate.pem'' \<mapsto> File ''stale'',
      ''/srv/material_passwd'' \<mapsto> File password_content]"

definition example_world :: "string \<Rightarrow> world" where
  "example_world password_content =
     \<lparr>cwd = ''/srv'', files = example_files password_content, trace = []\<rparr>"

section \<open>Base64: alphabet and round trip\<close>

declare textwrap_wrap.simps [simp del]

lemma and_3_take_bit: "(a::byte) AND 3 = take_bit 2 a"
  by (simp add: take_bit_eq_mask mask_eq_exp_minus_1)
lemma and_15_take_bit: "(a::byte) AND 15 = take_bit 4 a"
  by (simp add: take_bit_eq_mask mask_eq_exp_minus_1)
lemma and_63_take_bit: "(a::byte) AND 63 = take_bit 6 a"
  by (simp add: take_bit_eq_mask mask_eq_exp_minus_1)

lemma sextet_bound:
  fixes x :: byte
  assumes "take_bit 6 x = x"
  shows "unat x < 64"
proof -
  have "take_bit 6 (unat x) < 2 ^ 6"
    by (rule take_bit_nat_less_exp)
  then have "unat (take_bit 6 x) < 2 ^ 6"
    by (simp only: unsigned_take_bit_eq)
  then show ?thesis using assms by simp
qed

lemma bit_byte_less: "bit (b::byte) m \<Longrightarrow> m < 8"
  by (auto dest: bit_imp_le_length)

lemma sextet1: "unat (drop_bit 2 (a::byte)) < 64"
  by (rule sextet_bound, rule bit_word_eqI) (auto simp: bit_simps dest: bit_byte_less)

lemma sextet2: "unat (push_bit 4 (a AND 3) OR drop_bit 4 (b::byte)) < 64"
  by (rule sextet_bound, rule bit_word_eqI) (auto simp: bit_simps and_3_take_bit dest: bit_byte_less)

lemma sextet3: "unat (push_bit 2 (b AND 15) OR drop_bit 6 (c::byte)) < 64"
  by (rule sextet_bound, rule bit_word_eqI) (auto simp: bit_simps and_15_take_bit dest: bit_byte_less)

lemma sextet4: "unat ((c::byte) AND 63) < 64"
  by (rule sextet_bound, rule bit_word_eqI) (auto simp: bit_simps and_63_take_bit dest: bit_byte_less)

lemma sextet2_pad: "unat (push_bit 4 ((a::byte) AND 3)) < 64"
  by (rule sextet_bound, rule bit_word_eqI) (auto simp: bit_simps and_3_take_bit dest: bit_byte_less)

lemma sextet3_pad: "unat (push_bit 2 ((b::byte) AND 15)) < 64"
  by (rule sextet_bound, rule bit_word_eqI) (auto simp: bit_simps and_15_take_bit dest: bit_byte_less)

lemma sub2_add2: "2 \<le> n \<Longrightarrow> Suc (Suc (n - 2)) = n"
  by simp
lemma sub4_add4: "4 \<le> n \<Longrightarrow> n - 4 + 4 = n" for n :: nat
  by simp
lemma sub6_add6: "6 \<le> n \<Longrightarrow> n - 6 + 6 = n" for n :: nat
  by simp

lemma byte1_back: "push_bit 2 (drop_bit 2 (a::byte)) OR drop_bit 4 (push_bit 4 (a AND 3) OR drop_bit 4 (b::byte)) = a"
  apply (rule bit_word_eqI)
  subgoal for n
    apply (cases "2 \<le> n")
     apply (auto simp: bit_simps and_3_take_bit sub2_add2)
    done
  done

lemma byte1_pad: "push_bit 2 (drop_bit 2 (a::byte)) OR drop_bit 4 (push_bit 4 (a AND 3)) = a"
  apply (rule bit_word_eqI)
  subgoal for n
    apply (cases "2 \<le> n")
     apply (auto simp: bit_simps and_3_take_bit sub2_add2)
    done
  done

lemma byte2_back: "push_bit 4 ((push_bit 4 (a AND 3) OR drop_bit 4 (b::byte)) AND 15) OR drop_bit 2 (push_bit 2 (b AND 15) OR drop_bit 6 (c::byte)) = b"
  apply (rule bit_word_eqI)
  subgoal for n
    apply (cases "4 \<le> n")
     apply (auto simp: bit_simps and_3_take_bit and_15_take_bit sub2_add2 sub4_add4)
    done
  done

lemma byte2_pad: "push_bit 4 ((push_bit 4 (a AND 3) OR drop_bit 4 (b::byte)) AND 15) OR drop_bit 2 (push_bit 2 (b AND 15)) = b"
  apply (rule bit_word_eqI)
  subgoal for n
    apply (cases "4 \<le> n")
     apply (auto simp: bit_simps and_3_take_bit and_15_take_bit sub2_add2 sub4_add4)
    done
  done

lemma byte3_back: "push_bit 6 ((push_bit 2 (b AND 15) OR drop_bit 6 (c::byte)) AND 3) OR (c AND 63) = c"
  apply (rule bit_word_eqI)
  subgoal for n
    apply (cases "6 \<le> n")
     apply (auto simp: bit_simps and_3_take_bit and_15_take_bit and_63_take_bit sub2_add2 sub4_add4 sub6_add6)
    done
  done

lemma b64_table_distinct: "distinct b64_table"
  by (simp add: b64_table_def)

lemma b64_table_length: "length b64_table = 64"
  by (simp add: b64_table_def)

lemma b64_index_char: "unat i < 64 \<Longrightarrow> b64_index (b64_char i) = Some i"
proof -
  assume h: "unat i < 64"
  have "map_of (zip b64_table (map of_nat [0..<64])) (b64_table ! unat i) = Some ((map of_nat [0..<64] :: byte list) ! unat i)"
    by (rule map_of_zip_nth) (simp_all add: b64_table_length b64_table_distinct h)
  then show ?thesis using h by (simp add: b64_index_def b64_char_def)
qed

lemma b64_char_in_table: "unat i < 64 \<Longrightarrow> b64_char i \<in> set b64_table"
  by (simp add: b64_char_def b64_table_length)

lemma pad_not_in_table: "CHR ''='' \<notin> set b64_table"
  by (simp add: b64_table_def)

lemma b64_char_not_pad: "unat i < 64 \<Longrightarrow> b64_char i \<noteq> CHR ''=''"
  using b64_char_in_table pad_not_in_table by metis


lemma b64decode_full:
  assumes "unat i1 < 64" "unat i2 < 64" "unat i3 < 64" "unat i4 < 64"
  shows "b64decode (b64_char i1 # b64_char i2 # b64_char i3 # b64_char i4 # rest) =
    (case b64decode rest of None \<Rightarrow> None
     | Some bs \<Rightarrow> Some ((push_bit 2 i1 OR drop_bit 4 i2) # (push_bit 4 (i2 AND 15) OR drop_bit 2 i3) # (push_bit 6 (i3 AND 3) OR i4) # bs))"
  using assms by (simp add: b64_index_char b64_char_not_pad del: push_bit_and)

lemma b64decode_pad1:
  assumes "unat i1 < 64" "unat i2 < 64" "unat i3 < 64"
  shows "b64decode [b64_char i1, b64_char i2, b64_char i3, CHR ''=''] =
    Some [push_bit 2 i1 OR drop_bit 4 i2, push_bit 4 (i2 AND 15) OR drop_bit 2 i3]"
  using assms by (simp add: b64_index_char b64_char_not_pad del: push_bit_and)

lemma b64decode_pad2:
  assumes "unat i1 < 64" "unat i2 < 64"
  shows "b64decode [b64_char i1, b64_char i2, CHR ''='', CHR ''=''] =
    Some [push_bit 2 i1 OR drop_bit 4 i2]"
  using assms by (simp add: b64_index_char b64_char_not_pad del: push_bit_and)

lemma b64decode_b64encode: "b64decode (b64encode d) = Some d"
proof (induction d rule: b64encode.induct)
  case (1 a b c rest)
  have "b64decode (b64encode (a # b # c # rest)) =
      b64decode (b64_char (drop_bit 2 a) # b64_char (push_bit 4 (a AND 3) OR drop_bit 4 b) #
        b64_char (push_bit 2 (b AND 15) OR drop_bit 6 c) # b64_char (c AND 63) # b64encode rest)"
    by (simp only: b64encode.simps append_Cons append_Nil)
  also have "\<dots> = Some (a # b # c # rest)"
    by (simp only: b64decode_full [OF sextet1 sextet2 sextet3 sextet4] 1 byte1_back byte2_back byte3_back option.case)
  finally show ?case .
next
  case (2 a b)
  show ?case
    by (simp only: b64encode.simps b64decode_pad1 [OF sextet1 sextet2 sextet3_pad] byte1_back byte2_pad)
next
  case (3 a)
  show ?case
    by (simp only: b64encode.simps b64decode_pad2 [OF sextet1 sextet2_pad] byte1_pad)
next
  case 4
  show ?case by simp
qed

lemma wrap_empty: "textwrap_wrap [] n = []"
  by (simp add: textwrap_wrap.simps)

section \<open>Wrapping\<close>

lemma b64encode_alphabet: "set (b64encode d) \<subseteq> set b64_table \<union> {CHR ''=''}"
  by (induction d rule: b64encode.induct)
     (simp_all add: b64_char_in_table sextet1 sextet2 sextet3 sextet4 sextet2_pad sextet3_pad del: push_bit_and)

lemma wrap_concat: "0 < n \<Longrightarrow> concat (textwrap_wrap s n) = s"
proof (induction s n rule: textwrap_wrap.induct)
  case (1 s n)
  then show ?case
    by (subst textwrap_wrap.simps) auto
qed

lemma wrap_lines_nonempty: "l \<in> set (textwrap_wrap s n) \<Longrightarrow> l \<noteq> [] \<and> length l \<le> n \<and> set l \<subseteq> set s"
proof (induction s n arbitrary: l rule: textwrap_wrap.induct)
  case (1 s n)
  show ?case
  proof (cases "n = 0 \<or> s = []")
    case True
    with "1.prems" show ?thesis by (simp add: textwrap_wrap.simps)
  next
    case False
    show ?thesis
    proof (cases "length s \<le> n")
      case True
      with False "1.prems" show ?thesis by (simp add: textwrap_wrap.simps)
    next
      case long: False
      from False long "1.prems" have "l = take n s \<or> l \<in> set (textwrap_wrap (drop n s) n)"
        by (subst (asm) textwrap_wrap.simps) simp
      then show ?thesis
      proof
        assume "l = take n s"
        with False long show ?thesis by (auto dest: in_set_takeD)
      next
        assume "l \<in> set (textwrap_wrap (drop n s) n)"
        from "1.IH" [OF False long this] show ?thesis by (auto dest: in_set_dropD)
      qed
    qed
  qed
qed

lemma drop_mult_step: "drop (i * n) (drop n s) = drop (Suc i * n) s"
  by (simp add: add.commute)

lemma upt_0_Suc_map: "[0..<Suc k] = 0 # map Suc [0..<k]"
  by (simp add: upt_conv_Cons map_Suc_upt del: upt_Suc)

lemma hard_wrap_short:
  assumes "s \<noteq> []" "length s \<le> n"
  shows "hard_wrap n s = [s]"
proof -
  from assms have pos: "0 < length s" "0 < n" by (cases s; simp)+
  have "length s + n - 1 = (length s - 1) + n" using pos by arith
  moreover have "(length s - 1) div n = 0" using pos assms(2) by simp
  ultimately have "(length s + n - 1) div n = 1"
    using pos(2) by (simp only: div_add_self2)
  then show ?thesis using assms by (simp add: hard_wrap_def)
qed

lemma hard_wrap_long:
  assumes "0 < n" "n < length s"
  shows "hard_wrap n s = take n s # hard_wrap n (drop n s)"
proof -
  have "length s + n - 1 = (length s - n + n - 1) + n" using assms by simp
  then have cnt: "(length s + n - 1) div n = Suc ((length s - n + n - 1) div n)"
    using assms(1) by (simp only: div_add_self2)
  show ?thesis
    unfolding hard_wrap_def cnt upt_0_Suc_map
    by (simp add: comp_def add.commute del: upt_Suc)
qed

lemma wrap_hard_wrap: "0 < n \<Longrightarrow> textwrap_wrap s n = hard_wrap n s"
proof (induction s n rule: textwrap_wrap.induct)
  case (1 s n)
  show ?case
  proof (cases "s = []")
    case True
    then show ?thesis using "1.prems" by (simp add: textwrap_wrap.simps hard_wrap_def)
  next
    case False
    show ?thesis
    proof (cases "length s \<le> n")
      case True
      with False "1.prems" show ?thesis by (simp add: textwrap_wrap.simps hard_wrap_short)
    next
      case long: False
      have ne: "\<not> (n = 0 \<or> s = [])" using False "1.prems" by simp
      have IH: "textwrap_wrap (drop n s) n = hard_wrap n (drop n s)"
        using "1.IH" [OF ne long "1.prems"] .
      from long "1.prems" have "hard_wrap n s = take n s # hard_wrap n (drop n s)"
        by (simp add: hard_wrap_long)
      with ne long IH show ?thesis by (simp add: textwrap_wrap.simps)
    qed
  qed
qed

section \<open>One PEM block\<close>

lemma strip_prefix_append: "strip_prefix p (p @ rest) = Some rest"
  by (simp add: strip_prefix_def)

lemma strip_suffix_append: "strip_suffix q (body @ q) = Some body"
  by (simp add: strip_suffix_def)

lemma b64_table_plain:
  "c \<in> set b64_table \<Longrightarrow> c \<noteq> LF \<and> c \<noteq> CR \<and> c \<noteq> CHR ''-'' \<and> c \<noteq> CHR '' ''"
  by (auto simp: b64_table_def LF_def CR_def)

lemma b64encode_plain:
  assumes "c \<in> set (b64encode d)"
  shows "c \<noteq> LF \<and> c \<noteq> CR \<and> c \<noteq> CHR ''-'' \<and> c \<noteq> CHR '' ''"
proof -
  from assms b64encode_alphabet have "c \<in> set b64_table \<or> c = CHR ''=''" by auto
  then show ?thesis
    by (auto dest: b64_table_plain simp: LF_def CR_def)
qed

lemma filter_join_plain:
  assumes "\<forall>l \<in> set ls. \<forall>c \<in> set l. \<not> is_line_terminator c"
  shows "filter (\<lambda>c. \<not> is_line_terminator c) (str_join [CR, LF] ls) = concat ls"
  using assms
  by (induction "[CR, LF]" ls rule: str_join.induct) (auto simp: is_line_terminator_def)

lemma wrapped_lines_plain:
  assumes "l \<in> set (textwrap_wrap (b64encode d) 64)" "c \<in> set l"
  shows "c \<noteq> LF \<and> c \<noteq> CR \<and> c \<noteq> CHR ''-'' \<and> c \<noteq> CHR '' ''"
  using assms wrap_lines_nonempty [of l "b64encode d" 64] b64encode_plain [of c d] by auto

lemma LF_is_terminator: "is_line_terminator LF"
  by (simp add: is_line_terminator_def)

lemma body_filter:
  "filter (\<lambda>c. \<not> is_line_terminator c) (str_join [CR, LF] (textwrap_wrap (b64encode d) 64)) = b64encode d"
proof -
  have "filter (\<lambda>c. \<not> is_line_terminator c) (str_join [CR, LF] (textwrap_wrap (b64encode d) 64))
      = concat (textwrap_wrap (b64encode d) 64)"
    by (rule filter_join_plain) (auto simp: is_line_terminator_def dest: wrapped_lines_plain)
  then show ?thesis by (simp add: wrap_concat)
qed

lemma bytes_to_pem_str_shape:
  "bytes_to_pem_str d L =
     (''-----BEGIN '' @ L @ ''-----'' @ [LF]) @
     (str_join [CR, LF] (textwrap_wrap (b64encode d) 64) @ [LF]) @
     (''-----END '' @ L @ ''-----'' @ [LF])"
  by (simp add: bytes_to_pem_str_def)

lemma block_decode: "pem_block_decode L (bytes_to_pem_str d L) = Some d"
proof -
  have "pem_block_decode L (bytes_to_pem_str d L) =
      b64decode (filter (\<lambda>c. \<not> is_line_terminator c) (str_join [CR, LF] (textwrap_wrap (b64encode d) 64) @ [LF]))"
    unfolding pem_block_decode_def bytes_to_pem_str_shape
    by (simp only: strip_prefix_append strip_suffix_append option.case)
  also have "\<dots> = b64decode (b64encode d)"
    by (simp add: body_filter LF_is_terminator)
  finally show ?thesis by (simp add: b64decode_b64encode)
qed

section \<open>Reading back a whole PEM text\<close>

lemma split_lines_append:
  "LF \<notin> set a \<Longrightarrow> split_lines (a @ LF # rest) = a # split_lines rest"
  by (induction a) (auto simp: Let_def)

lemma end_line_no_LF: "LF \<notin> set L \<Longrightarrow> LF \<notin> set (''-----END '' @ L @ ''-----'')"
  by (simp add: LF_def)

lemma begin_line_no_LF: "LF \<notin> set L \<Longrightarrow> LF \<notin> set (''-----BEGIN '' @ L @ ''-----'')"
  by (simp add: LF_def)

lemma begin_label_begin: "begin_label (''-----BEGIN '' @ L @ ''-----'') = Some L"
proof -
  have "strip_prefix ''-----BEGIN '' (''-----BEGIN '' @ (L @ ''-----'')) = Some (L @ ''-----'')"
    by (rule strip_prefix_append)
  then show ?thesis
    by (simp add: begin_label_def strip_suffix_append)
qed

lemma plain_line_not_end: "plain_line l \<Longrightarrow> l @ r \<noteq> ''-----END '' @ L @ ''-----''"
  by (cases l) (auto simp: plain_line_def)

lemma plain_line_filter: "plain_line l \<Longrightarrow> filter (\<lambda>c. \<not> is_line_terminator c) l = l"
  by (auto simp: plain_line_def is_line_terminator_def filter_id_conv)

lemma plain_line_no_LF: "plain_line l \<Longrightarrow> LF \<notin> set l"
  by (auto simp: plain_line_def)

lemma read_pem_body_line:
  "l \<noteq> ''-----END '' @ L @ ''-----'' \<Longrightarrow>
   read_pem (Some (L, acc)) (l # ls) =
   read_pem (Some (L, acc @ filter (\<lambda>c. \<not> is_line_terminator c) l)) ls"
  by simp

lemma read_pem_end_line:
  "read_pem (Some (L, acc)) ((''-----END '' @ L @ ''-----'') # ls) =
   (case b64decode acc of
      None \<Rightarrow> None
    | Some d \<Rightarrow> (case read_pem None ls of
                   None \<Rightarrow> None
                 | Some blocks \<Rightarrow> Some ((L, d) # blocks)))"
  by simp

lemma read_body:
  assumes "\<forall>l \<in> set ls. plain_line l" and "LF \<notin> set L"
  shows "read_pem (Some (L, acc))
           (split_lines (str_join [CR, LF] ls @ LF # (''-----END '' @ L @ ''-----'') @ LF # rest)) =
         (case b64decode (acc @ concat ls) of
            None \<Rightarrow> None
          | Some d \<Rightarrow> (case read_pem None (split_lines rest) of
                         None \<Rightarrow> None
                       | Some blocks \<Rightarrow> Some ((L, d) # blocks)))"
  using assms(1)
proof (induction "[CR, LF]" ls arbitrary: acc rule: str_join.induct)
  let ?E = "''-----END '' @ L @ ''-----''"
  let ?F = "filter (\<lambda>c. \<not> is_line_terminator c)"
  have E: "split_lines (?E @ LF # rest) = ?E # split_lines rest"
    using end_line_no_LF [OF assms(2)] by (rule split_lines_append)
  have ne0: "[] \<noteq> ?E" by simp
  {
    case 1
    have "split_lines ([] @ LF # ?E @ LF # rest) = [] # split_lines (?E @ LF # rest)"
      by (rule split_lines_append) simp
    then have "read_pem (Some (L, acc)) (split_lines (str_join [CR, LF] [] @ LF # ?E @ LF # rest)) =
        read_pem (Some (L, acc)) ([] # ?E # split_lines rest)"
      by (simp only: E str_join.simps)
    also have "\<dots> = read_pem (Some (L, acc @ ?F [])) (?E # split_lines rest)"
      by (rule read_pem_body_line [OF ne0])
    also have "\<dots> = read_pem (Some (L, acc @ concat [])) (?E # split_lines rest)"
      by simp
    finally show ?case by (simp only: read_pem_end_line)
  next
    case (2 x)
    then have px: "plain_line x" by simp
    have ne: "x \<noteq> ?E" using plain_line_not_end [OF px, of "[]" L] by simp
    have "split_lines (x @ LF # ?E @ LF # rest) = x # split_lines (?E @ LF # rest)"
      using plain_line_no_LF [OF px] by (rule split_lines_append)
    then have "read_pem (Some (L, acc)) (split_lines (str_join [CR, LF] [x] @ LF # ?E @ LF # rest)) =
        read_pem (Some (L, acc)) (x # ?E # split_lines rest)"
      by (simp only: E str_join.simps)
    also have "\<dots> = read_pem (Some (L, acc @ ?F x)) (?E # split_lines rest)"
      by (rule read_pem_body_line [OF ne])
    also have "\<dots> = read_pem (Some (L, acc @ concat [x])) (?E # split_lines rest)"
      by (simp add: plain_line_filter [OF px])
    finally show ?case by (simp only: read_pem_end_line)
  next
    case (3 x y ys)
    then have px: "plain_line x" and rest: "\<forall>l \<in> set (y # ys). plain_line l" by simp_all
    let ?R = "str_join [CR, LF] (y # ys) @ LF # ?E @ LF # rest"
    have ne: "x @ [CR] \<noteq> ?E" by (rule plain_line_not_end [OF px])
    have nlf: "LF \<notin> set (x @ [CR])" using plain_line_no_LF [OF px] by (simp add: LF_def CR_def)
    have "split_lines ((x @ [CR]) @ LF # ?R) = (x @ [CR]) # split_lines ?R"
      using nlf by (rule split_lines_append)
    then have sp: "split_lines (str_join [CR, LF] (x # y # ys) @ LF # ?E @ LF # rest) =
          (x @ [CR]) # split_lines ?R"
      by simp
    have flt: "?F (x @ [CR]) = x"
      using plain_line_filter [OF px] by (simp add: is_line_terminator_def)
    have "read_pem (Some (L, acc)) (split_lines (str_join [CR, LF] (x # y # ys) @ LF # ?E @ LF # rest)) =
        read_pem (Some (L, acc)) ((x @ [CR]) # split_lines ?R)"
      by (simp only: sp)
    also have "\<dots> = read_pem (Some (L, acc @ ?F (x @ [CR]))) (split_lines ?R)"
      by (rule read_pem_body_line [OF ne])
    also have "\<dots> = read_pem (Some (L, acc @ x)) (split_lines ?R)"
      by (simp only: flt)
    also have "\<dots> = (case b64decode ((acc @ x) @ concat (y # ys)) of
            None \<Rightarrow> None
          | Some d \<Rightarrow> (case read_pem None (split_lines rest) of
                         None \<Rightarrow> None
                       | Some blocks \<Rightarrow> Some ((L, d) # blocks)))"
      by (rule "3.hyps" [OF rest])
    finally show ?case by simp
  }
qed


lemma wrapped_lines_are_plain: "\<forall>l \<in> set (textwrap_wrap (b64encode d) 64). plain_line l"
  using wrap_lines_nonempty [of _ "b64encode d" 64] wrapped_lines_plain [of _ d]
  by (auto simp: plain_line_def)

lemma read_pem_begin_line:
  "read_pem None ((''-----BEGIN '' @ L @ ''-----'') # ls) = read_pem (Some (L, [])) ls"
proof -
  let ?B = "''-----BEGIN '' @ L @ ''-----''"
  have ne: "(?B = []) = False" by simp
  have "read_pem None (?B # ls) =
      (if ?B = [] \<and> ls = [] then Some []
       else case begin_label ?B of None \<Rightarrow> None | Some L \<Rightarrow> read_pem (Some (L, [])) ls)"
    by (rule read_pem.simps(3))
  also have "\<dots> = read_pem (Some (L, [])) ls"
    by (simp only: ne begin_label_begin option.case if_False simp_thms)
  finally show ?thesis .
qed

lemma read_block:
  assumes "LF \<notin> set L"
  shows "read_pem None (split_lines (bytes_to_pem_str d L @ rest)) =
         (case read_pem None (split_lines rest) of
            None \<Rightarrow> None
          | Some blocks \<Rightarrow> Some ((L, d) # blocks))"
proof -
  let ?B = "''-----BEGIN '' @ L @ ''-----''"
  let ?E = "''-----END '' @ L @ ''-----''"
  let ?ls = "textwrap_wrap (b64encode d) 64"
  let ?R = "str_join [CR, LF] ?ls @ LF # ?E @ LF # rest"
  have shape: "bytes_to_pem_str d L @ rest = ?B @ LF # ?R"
    by (simp add: bytes_to_pem_str_def)
  have "split_lines (?B @ LF # ?R) = ?B # split_lines ?R"
    using begin_line_no_LF [OF assms] by (rule split_lines_append)
  then have "read_pem None (split_lines (bytes_to_pem_str d L @ rest)) =
      read_pem None (?B # split_lines ?R)"
    by (simp only: shape)
  also have "\<dots> = read_pem (Some (L, [])) (split_lines ?R)"
    by (rule read_pem_begin_line)
  also have "\<dots> = (case b64decode ([] @ concat ?ls) of
            None \<Rightarrow> None
          | Some d \<Rightarrow> (case read_pem None (split_lines rest) of
                         None \<Rightarrow> None
                       | Some blocks \<Rightarrow> Some ((L, d) # blocks)))"
    using wrapped_lines_are_plain assms by (rule read_body)
  also have "\<dots> = (case read_pem None (split_lines rest) of
            None \<Rightarrow> None
          | Some blocks \<Rightarrow> Some ((L, d) # blocks))"
    by (simp add: wrap_concat b64decode_b64encode)
  finally show ?thesis .
qed

lemma parse_render:
  assumes "\<forall>b \<in> set blocks. LF \<notin> set (fst b)"
  shows "parse_pem (render_blocks blocks) = Some blocks"
  using assms
proof (induction blocks)
  case Nil
  show ?case by (simp add: parse_pem_def render_blocks_def)
next
  case (Cons b blocks)
  obtain L d where b: "b = (L, d)" by (cases b)
  from Cons.prems b have L: "LF \<notin> set L" by simp
  from Cons have IH: "read_pem None (split_lines (render_blocks blocks)) = Some blocks"
    by (simp add: parse_pem_def)
  have "render_blocks (b # blocks) = bytes_to_pem_str d L @ render_blocks blocks"
    by (simp add: render_blocks_def b)
  then show ?case
    by (simp add: parse_pem_def read_block [OF L] IH b)
qed

lemma cert_chain_loop_render:
  "cert_chain_loop acc cs = acc @ render_blocks (map (\<lambda>c. (''CERTIFICATE'', snd c)) cs)"
  by (induction cs arbitrary: acc) (simp_all add: render_blocks_def)

lemma render_blocks_append: "render_blocks (xs @ ys) = render_blocks xs @ render_blocks ys"
  by (simp add: render_blocks_def)

lemma render_blocks_Cons: "render_blocks ((L, d) # ys) = bytes_to_pem_str d L @ render_blocks ys"
  by (simp add: render_blocks_def)

lemma private_keys_loop_render:
  "private_keys_loop acc pks =
     acc @ render_blocks (concat (map (\<lambda>(alias, pk). key_block pk # chain_blocks pk) pks))"
proof (induction pks arbitrary: acc)
  case Nil
  show ?case by (simp add: render_blocks_def)
next
  case (Cons p pks)
  obtain a pk where p: "p = (a, pk)" by (cases p)
  show ?case
    by (simp add: p Cons.IH cert_chain_loop_render render_blocks_append render_blocks_Cons
        key_block_def chain_blocks_def)
qed

lemma certs_loop_render:
  "certs_loop acc cs = acc @ render_blocks (map (\<lambda>(alias, c). (''CERTIFICATE'', cert c)) cs)"
proof (induction cs arbitrary: acc)
  case Nil
  show ?case by (simp add: render_blocks_def)
next
  case (Cons p cs)
  obtain a c where p: "p = (a, c)" by (cases p)
  show ?case by (simp add: p Cons.IH render_blocks_Cons)
qed

lemma convert_loaded:
  assumes "KeyStore_load loads jks_path pw w = (Inr ks, w1)"
  shows "convert_jks_to_pem loads jks_path pw w = (Inr (render_blocks (expected_blocks ks)), w1)"
  using assms
  by (simp add: convert_jks_to_pem_def private_keys_loop_render certs_loop_render
      expected_blocks_def render_blocks_append)

lemma label_no_LF: "L \<in> {''RSA PRIVATE KEY'', ''PRIVATE KEY'', ''CERTIFICATE''} \<Longrightarrow> LF \<notin> set L"
  by (auto simp: LF_def)

lemma expected_labels:
  "b \<in> set (expected_blocks ks) \<Longrightarrow> fst b \<in> {''RSA PRIVATE KEY'', ''PRIVATE KEY'', ''CERTIFICATE''}"
  by (auto simp: expected_blocks_def key_block_def chain_blocks_def split: if_splits)

lemma parse_expected: "parse_pem (render_blocks (expected_blocks ks)) = Some (expected_blocks ks)"
proof (rule parse_render, rule ballI)
  fix b assume "b \<in> set (expected_blocks ks)"
  then show "LF \<notin> set (fst b)" by (rule label_no_LF [OF expected_labels])
qed

section \<open>Facts about the wrapped lines and the bytes of a store\<close>

lemma snd_key_block:
  "snd (key_block pk) = (if algorithm_oid pk = RSA_ENCRYPTION_OID then pkey pk else pkey_pkcs8 pk)"
  by (simp add: key_block_def)

lemma map_snd_chain_blocks: "map snd (chain_blocks pk) = map snd (cert_chain pk)"
  by (simp add: chain_blocks_def comp_def)

lemma map_snd_expected: "map snd (expected_blocks ks) = store_bytes ks"
  by (simp add: expected_blocks_def store_bytes_def map_concat comp_def split_def
      snd_key_block map_snd_chain_blocks)

lemma wrap_butlast_full: "0 < n \<Longrightarrow> l \<in> set (butlast (textwrap_wrap s n)) \<Longrightarrow> length l = n"
proof (induction s n arbitrary: l rule: textwrap_wrap.induct)
  case (1 s n)
  show ?case
  proof (cases "s = [] \<or> length s \<le> n")
    case True
    with "1.prems" show ?thesis by (auto simp: textwrap_wrap.simps split: if_splits)
  next
    case False
    then have ne: "\<not> (n = 0 \<or> s = [])" and long: "\<not> length s \<le> n" using "1.prems" by auto
    have nonempty: "textwrap_wrap (drop n s) n \<noteq> []"
      using long "1.prems"(1) by (subst textwrap_wrap.simps) auto
    have "textwrap_wrap s n = take n s # textwrap_wrap (drop n s) n"
      using ne long by (subst textwrap_wrap.simps) simp
    with nonempty "1.prems"(2) have "l = take n s \<or> l \<in> set (butlast (textwrap_wrap (drop n s) n))"
      by auto
    then show ?thesis
    proof
      assume "l = take n s" with long show ?thesis by simp
    next
      assume "l \<in> set (butlast (textwrap_wrap (drop n s) n))"
      with "1.IH" [OF ne long "1.prems"(1)] show ?thesis .
    qed
  qed
qed

lemma wrap_last_bounds:
  assumes "0 < n" "textwrap_wrap s n \<noteq> []"
  shows "0 < length (last (textwrap_wrap s n)) \<and> length (last (textwrap_wrap s n)) \<le> n"
proof -
  from assms(2) have "last (textwrap_wrap s n) \<in> set (textwrap_wrap s n)" by simp
  from wrap_lines_nonempty [OF this] show ?thesis by simp
qed

section \<open>The blocks of a converted store\<close>

lemma filter_chain_blocks: "filter (\<lambda>b. fst b \<noteq> ''CERTIFICATE'') (chain_blocks pk) = []"
  by (simp add: chain_blocks_def filter_empty_conv)

lemma key_block_not_cert: "fst (key_block pk) \<noteq> ''CERTIFICATE''"
  by (simp add: key_block_def)

lemma filter_key_entries:
  "filter (\<lambda>b. fst b \<noteq> ''CERTIFICATE'')
     (concat (map (\<lambda>(alias, pk). key_block pk # chain_blocks pk) pks)) =
   map (\<lambda>(alias, pk). key_block pk) pks"
  by (induction pks) (auto simp: filter_chain_blocks key_block_not_cert)

lemma filter_trusted:
  "filter (\<lambda>b. fst b \<noteq> ''CERTIFICATE'') (map (\<lambda>(alias, c). (''CERTIFICATE'', cert c)) cs) = []"
  by (auto simp: filter_empty_conv)

lemma filter_expected:
  "filter (\<lambda>b. fst b \<noteq> ''CERTIFICATE'') (expected_blocks ks) =
   map (\<lambda>(alias, pk). key_block pk) (private_keys ks)"
  by (simp add: expected_blocks_def filter_key_entries filter_trusted)

lemma example_load:
  "KeyStore_load example_loads ''/srv/k_certificate'' ''secret'' (example_world ''secret'') =
     (Inr example_store, log_event (Load ''/srv/k_certificate'' ''secret'') (example_world ''secret''))"
  by (simp add: KeyStore_load_def example_loads_def example_world_def example_files_def)

lemma example_store_bytes:
  "store_bytes example_store = [[0x30, 0x82, 0x04], [0x4C, 0x45, 0x41, 0x46], [0x52, 0x4F], [0x30, 0x41, 0x02], [0x54]]"
  by (simp add: store_bytes_def example_store_def RSA_ENCRYPTION_OID_def)

lemma example_expected_blocks:
  "expected_blocks example_store =
     [(''RSA PRIVATE KEY'', [0x30, 0x82, 0x04]), (''CERTIFICATE'', [0x4C, 0x45, 0x41, 0x46]),
      (''CERTIFICATE'', [0x52, 0x4F]), (''PRIVATE KEY'', [0x30, 0x41, 0x02]), (''CERTIFICATE'', [0x54])]"
  by (simp add: expected_blocks_def key_block_def chain_blocks_def example_store_def RSA_ENCRYPTION_OID_def)

section \<open>The password reader\<close>

lemmas printable_defs = string_printable_def string_digits_def string_ascii_letters_def
  string_punctuation_def string_whitespace_def

lemma printable_to_codes:
  "c \<in> set string_printable \<Longrightarrow> ascii_printable c \<or> ascii_control_whitespace c"
  by (auto simp: printable_defs ascii_printable_def ascii_control_whitespace_def)

lemma codes_printable_aux:
  "\<forall>n \<in> set ([9..<14] @ [32..<127]). char_of (n::nat) \<in> set string_printable"
  by (simp add: upt_rec printable_defs char_of_def bit_0)

lemma codes_to_printable:
  assumes "ascii_printable c \<or> ascii_control_whitespace c"
  shows "c \<in> set string_printable"
proof -
  from assms have "9 \<le> (of_char c :: nat) \<and> (of_char c :: nat) < 14 \<or>
      32 \<le> (of_char c :: nat) \<and> (of_char c :: nat) < 127"
    unfolding ascii_printable_def ascii_control_whitespace_def by arith
  then have "(of_char c :: nat) \<in> set ([9..<14] @ [32..<127])"
    by (simp only: set_append set_upt Un_iff atLeastLessThan_iff)
  with codes_printable_aux have "char_of (of_char c :: nat) \<in> set string_printable"
    by blast
  then show ?thesis by simp
qed

lemma string_printable_codes:
  "(c \<in> set string_printable) = (ascii_printable c \<or> ascii_control_whitespace c)"
  using printable_to_codes codes_to_printable by blast

lemma keep_char_codes: "keep_char = printable_or_whitespace_keep"
  by (rule ext) (simp add: keep_char_def printable_or_whitespace_keep_def string_printable_codes)

lemma get_cert_pw_present:
  assumes "files w (cwd w @ ''/'' @ CRYPTO_MATERIAL_PASSWORD cfg) = Some (File content)"
  shows "get_cert_pw cfg w =
    (Inr (filter keep_char content),
     w\<lparr>trace := trace w @ [Exists (cwd w @ ''/'' @ CRYPTO_MATERIAL_PASSWORD cfg),
                             OpenRead (cwd w @ ''/'' @ CRYPTO_MATERIAL_PASSWORD cfg)]\<rparr>)"
  using assms
  by (simp add: get_cert_pw_def os_path_exists_def open_read_def log_event_def Let_def)

lemma get_cert_pw_absent:
  assumes "files w (cwd w @ ''/'' @ CRYPTO_MATERIAL_PASSWORD cfg) = None"
  shows "get_cert_pw cfg w =
    (Inl (AssertionError (''material_passwd is not present in directory: '' @
            cwd w @ ''/'' @ CRYPTO_MATERIAL_PASSWORD cfg)),
     w\<lparr>trace := trace w @ [Exists (cwd w @ ''/'' @ CRYPTO_MATERIAL_PASSWORD cfg)]\<rparr>)"
  using assms
  by (simp add: get_cert_pw_def os_path_exists_def open_read_def log_event_def Let_def)

lemma get_cert_pw_dir:
  assumes "files w (cwd w @ ''/'' @ CRYPTO_MATERIAL_PASSWORD cfg) = Some Dir"
  shows "get_cert_pw cfg w =
    (Inl (IOError (cwd w @ ''/'' @ CRYPTO_MATERIAL_PASSWORD cfg)),
     w\<lparr>trace := trace w @ [Exists (cwd w @ ''/'' @ CRYPTO_MATERIAL_PASSWORD cfg),
                             OpenRead (cwd w @ ''/'' @ CRYPTO_MATERIAL_PASSWORD cfg)]\<rparr>)"
  using assms
  by (simp add: get_cert_pw_def os_path_exists_def open_read_def log_event_def Let_def)

lemma node_cases:
  obtains (no_node) "files w p = None" | (dir_node) "files w p = Some Dir"
        | (file_node) content where "files w p = Some (File content)"
proof (cases "files w p")
  case None then show ?thesis by (rule no_node)
next
  case (Some n)
  then show ?thesis by (cases n) (auto intro: dir_node file_node)
qed

lemma example_cwd: "cwd (example_world c) = ''/srv''"
  by (simp add: example_world_def)

lemma example_password_path:
  "cwd (example_world c) @ ''/'' @ CRYPTO_MATERIAL_PASSWORD example_cfg = ''/srv/material_passwd''"
  by (simp add: example_world_def example_cfg_def)

lemma example_password_file:
  "files (example_world c) ''/srv/material_passwd'' = Some (File c)"
  by (simp add: example_world_def example_files_def)

section \<open>Writing one PEM file, and both\<close>

lemma KeyStore_load_world:
  "snd (KeyStore_load loads path pw w) = w\<lparr>trace := trace w @ [Load path pw]\<rparr>"
  by (simp add: KeyStore_load_def log_event_def)

lemma convert_world:
  "snd (convert_jks_to_pem loads jks_path pw w) = w\<lparr>trace := trace w @ [Load jks_path pw]\<rparr>"
proof (cases "fst (KeyStore_load loads jks_path pw w)")
  case (Inl e)
  then have "KeyStore_load loads jks_path pw w = (Inl e, snd (KeyStore_load loads jks_path pw w))"
    by (metis prod.collapse)
  then show ?thesis
    by (simp add: convert_jks_to_pem_def KeyStore_load_world)
next
  case (Inr ks)
  then have "KeyStore_load loads jks_path pw w = (Inr ks, snd (KeyStore_load loads jks_path pw w))"
    by (metis prod.collapse)
  then show ?thesis
    by (simp add: convert_jks_to_pem_def KeyStore_load_world Let_def)
qed

lemma write_pem_convert_fails:
  assumes "convert_jks_to_pem loads jks_path pw w = (Inl e, w1)"
  shows "write_pem loads jks_path pw output_path w = (Inl e, w1)"
    and "files w1 = files w" and "trace w1 = trace w @ [Load jks_path pw]" and "cwd w1 = cwd w"
proof -
  show "write_pem loads jks_path pw output_path w = (Inl e, w1)"
    using assms by (simp add: write_pem_def)
  have "w1 = w\<lparr>trace := trace w @ [Load jks_path pw]\<rparr>"
    using convert_world [of loads jks_path pw w] assms by simp
  then show "files w1 = files w" and "trace w1 = trace w @ [Load jks_path pw]" and "cwd w1 = cwd w"
    by simp_all
qed

lemma write_pem_converted:
  assumes "convert_jks_to_pem loads jks_path pw w = (Inr pem, w1)"
    and "files w output_path \<noteq> Some Dir"
  shows "write_pem loads jks_path pw output_path w =
    (Inr (), w\<lparr>trace := trace w @ [Load jks_path pw, OpenWrite output_path, Write output_path pem],
              files := (files w)(output_path \<mapsto> File pem)\<rparr>)"
proof -
  have w1: "w1 = w\<lparr>trace := trace w @ [Load jks_path pw]\<rparr>"
    using convert_world [of loads jks_path pw w] assms(1) by simp
  have "open_write output_path w1 =
      (Inr (), w\<lparr>trace := trace w @ [Load jks_path pw, OpenWrite output_path],
                files := (files w)(output_path \<mapsto> File [])\<rparr>)"
    using assms(2) unfolding w1
    by (simp add: open_write_def log_event_def split: option.splits node.splits)
  then show ?thesis
    using assms(1) by (simp add: write_pem_def file_write_def log_event_def)
qed

lemma write_pem_open_fails:
  assumes "convert_jks_to_pem loads jks_path pw w = (Inr pem, w1)"
    and "files w output_path = Some Dir"
  shows "write_pem loads jks_path pw output_path w =
    (Inl (IOError output_path), w\<lparr>trace := trace w @ [Load jks_path pw, OpenWrite output_path]\<rparr>)"
proof -
  have w1: "w1 = w\<lparr>trace := trace w @ [Load jks_path pw]\<rparr>"
    using convert_world [of loads jks_path pw w] assms(1) by simp
  have "open_write output_path w1 =
      (Inl (IOError output_path), w\<lparr>trace := trace w @ [Load jks_path pw, OpenWrite output_path]\<rparr>)"
    using assms(2) unfolding w1
    by (simp add: open_write_def log_event_def)
  then show ?thesis
    using assms(1) by (simp add: write_pem_def)
qed

lemma write_pem_result:
  obtains (convert_failed) e where
      "convert_jks_to_pem loads jks_path pw w = (Inl e, w\<lparr>trace := trace w @ [Load jks_path pw]\<rparr>)"
      "write_pem loads jks_path pw output_path w = (Inl e, w\<lparr>trace := trace w @ [Load jks_path pw]\<rparr>)"
  | (open_failed) pem where
      "convert_jks_to_pem loads jks_path pw w = (Inr pem, w\<lparr>trace := trace w @ [Load jks_path pw]\<rparr>)"
      "files w output_path = Some Dir"
      "write_pem loads jks_path pw output_path w =
         (Inl (IOError output_path), w\<lparr>trace := trace w @ [Load jks_path pw, OpenWrite output_path]\<rparr>)"
  | (written) pem where
      "convert_jks_to_pem loads jks_path pw w = (Inr pem, w\<lparr>trace := trace w @ [Load jks_path pw]\<rparr>)"
      "files w output_path \<noteq> Some Dir"
      "write_pem loads jks_path pw output_path w =
         (Inr (), w\<lparr>trace := trace w @ [Load jks_path pw, OpenWrite output_path, Write output_path pem],
                   files := (files w)(output_path \<mapsto> File pem)\<rparr>)"
proof -
  let ?w1 = "w\<lparr>trace := trace w @ [Load jks_path pw]\<rparr>"
  have c: "convert_jks_to_pem loads jks_path pw w = (fst (convert_jks_to_pem loads jks_path pw w), ?w1)"
    using convert_world [of loads jks_path pw w] by (metis prod.collapse)
  show ?thesis
  proof (cases "fst (convert_jks_to_pem loads jks_path pw w)")
    case (Inl e)
    with c have conv: "convert_jks_to_pem loads jks_path pw w = (Inl e, ?w1)" by simp
    from conv write_pem_convert_fails(1) [OF conv] show ?thesis by (rule convert_failed)
  next
    case (Inr pem)
    with c have conv: "convert_jks_to_pem loads jks_path pw w = (Inr pem, ?w1)" by simp
    show ?thesis
    proof (cases "files w output_path = Some Dir")
      case True
      from conv True write_pem_open_fails [OF conv True] show ?thesis by (rule open_failed)
    next
      case False
      from conv False write_pem_converted [OF conv False] show ?thesis by (rule written)
    qed
  qed
qed

lemma get_cert_pw_result:
  assumes "pp = cwd w @ ''/'' @ CRYPTO_MATERIAL_PASSWORD cfg"
  obtains (absent)
      "files w pp = None"
      "get_cert_pw cfg w =
         (Inl (AssertionError (''material_passwd is not present in directory: '' @ pp)),
          w\<lparr>trace := trace w @ [Exists pp]\<rparr>)"
  | (unreadable)
      "files w pp = Some Dir"
      "get_cert_pw cfg w = (Inl (IOError pp), w\<lparr>trace := trace w @ [Exists pp, OpenRead pp]\<rparr>)"
  | (present) content where
      "files w pp = Some (File content)"
      "get_cert_pw cfg w =
         (Inr (filter keep_char content), w\<lparr>trace := trace w @ [Exists pp, OpenRead pp]\<rparr>)"
proof (cases rule: node_cases [of w pp])
  case no_node
  from this get_cert_pw_absent [of w cfg, folded assms, OF this] show ?thesis
    by (rule absent)
next
  case dir_node
  from this get_cert_pw_dir [of w cfg, folded assms, OF this] show ?thesis
    by (rule unreadable)
next
  case (file_node content)
  from this get_cert_pw_present [of w cfg content, folded assms, OF this] show ?thesis
    by (rule present)
qed

lemma write_pems_unfold:
  assumes "kj = cwd w @ ''/'' @ K_CERTIFICATE_CONFIG cfg"
    and "tj = cwd w @ ''/'' @ T_CERTIFICATE_CONFIG cfg"
    and "kp = cwd w @ ''/'' @ PEM_K_CERTIFICATE_CONFIG cfg"
    and "tp = cwd w @ ''/'' @ PEM_T_CERTIFICATE_CONFIG cfg"
  shows "write_pems cfg loads w =
    (case get_cert_pw cfg w of
       (Inl e, w1) \<Rightarrow> (Inl e, w1)
     | (Inr k_pw, w1) \<Rightarrow>
         (case write_pem loads kj k_pw kp w1 of
            (Inl e, w2) \<Rightarrow> (Inl e, w2)
          | (Inr u, w2) \<Rightarrow>
              (case get_cert_pw cfg w2 of
                 (Inl e, w3) \<Rightarrow> (Inl e, w3)
               | (Inr t_pw, w3) \<Rightarrow> write_pem loads tj t_pw tp w3)))"
  unfolding assms write_pems_def Let_def get_key_store_pwd_def get_trust_store_pwd_def
  by (rule refl)

lemma write_pems_success:
  assumes ok: "write_pems cfg loads w = (Inr (), w')"
    and pp: "pp = cwd w @ ''/'' @ CRYPTO_MATERIAL_PASSWORD cfg"
    and kj: "kj = cwd w @ ''/'' @ K_CERTIFICATE_CONFIG cfg"
    and tj: "tj = cwd w @ ''/'' @ T_CERTIFICATE_CONFIG cfg"
    and kp: "kp = cwd w @ ''/'' @ PEM_K_CERTIFICATE_CONFIG cfg"
    and tp: "tp = cwd w @ ''/'' @ PEM_T_CERTIFICATE_CONFIG cfg"
  shows "\<exists>content k_pem content' t_pem.
    files w pp = Some (File content) \<and>
    ((files w)(kp \<mapsto> File k_pem)) pp = Some (File content') \<and>
    trace w' = trace w @
      [Exists pp, OpenRead pp, Load kj (filter keep_char content), OpenWrite kp, Write kp k_pem,
       Exists pp, OpenRead pp, Load tj (filter keep_char content'), OpenWrite tp, Write tp t_pem] \<and>
    files w' = ((files w)(kp \<mapsto> File k_pem))(tp \<mapsto> File t_pem)"
proof -
  note run = ok [unfolded write_pems_unfold [OF kj tj kp tp]]
  from pp show ?thesis
  proof (cases rule: get_cert_pw_result)
    case absent
    with run show ?thesis by simp
  next
    case unreadable
    with run show ?thesis by simp
  next
    case (present content)
    let ?k_pw = "filter keep_char content"
    let ?w1 = "w\<lparr>trace := trace w @ [Exists pp, OpenRead pp]\<rparr>"
    from run present(2) have step1:
      "(case write_pem loads kj ?k_pw kp ?w1 of
          (Inl e, w2) \<Rightarrow> (Inl e, w2)
        | (Inr u, w2) \<Rightarrow>
            (case get_cert_pw cfg w2 of
               (Inl e, w3) \<Rightarrow> (Inl e, w3)
             | (Inr t_pw, w3) \<Rightarrow> write_pem loads tj t_pw tp w3)) = (Inr (), w')"
      by simp
    show ?thesis
    proof (cases rule: write_pem_result [of loads kj ?k_pw ?w1 kp])
      case (convert_failed e)
      with step1 show ?thesis by simp
    next
      case (open_failed pem)
      with step1 show ?thesis by simp
    next
      case (written k_pem)
      let ?w2 = "w\<lparr>trace := trace w @ [Exists pp, OpenRead pp, Load kj ?k_pw, OpenWrite kp, Write kp k_pem],
                      files := (files w)(kp \<mapsto> File k_pem)\<rparr>"
      from written(3) have wr1: "write_pem loads kj ?k_pw kp ?w1 = (Inr (), ?w2)" by simp
      from step1 have step2:
        "(case get_cert_pw cfg ?w2 of
            (Inl e, w3) \<Rightarrow> (Inl e, w3)
          | (Inr t_pw, w3) \<Rightarrow> write_pem loads tj t_pw tp w3) = (Inr (), w')"
        unfolding wr1 by simp
      have pp2: "pp = cwd ?w2 @ ''/'' @ CRYPTO_MATERIAL_PASSWORD cfg"
        using pp by simp
      from pp2 show ?thesis
      proof (cases rule: get_cert_pw_result)
        case absent
        with step2 show ?thesis by simp
      next
        case unreadable
        with step2 show ?thesis by simp
      next
        case (present content')
        let ?t_pw = "filter keep_char content'"
        let ?w3 = "w\<lparr>trace := trace w @ [Exists pp, OpenRead pp, Load kj ?k_pw, OpenWrite kp,
                              Write kp k_pem, Exists pp, OpenRead pp],
                        files := (files w)(kp \<mapsto> File k_pem)\<rparr>"
        from present(1) have second: "((files w)(kp \<mapsto> File k_pem)) pp = Some (File content')"
          by simp
        from present(2) have rd2: "get_cert_pw cfg ?w2 = (Inr ?t_pw, ?w3)" by simp
        from step2 have step3: "write_pem loads tj ?t_pw tp ?w3 = (Inr (), w')"
          unfolding rd2 by simp
        show ?thesis
        proof (cases rule: write_pem_result [of loads tj ?t_pw ?w3 tp])
          case (convert_failed e)
          with step3 show ?thesis by simp
        next
          case (open_failed pem)
          with step3 show ?thesis by simp
        next
          case (written t_pem)
          with step3 have "w' = ?w3\<lparr>trace := trace ?w3 @ [Load tj ?t_pw, OpenWrite tp, Write tp t_pem],
                   files := (files ?w3)(tp \<mapsto> File t_pem)\<rparr>"
            by simp
          then have "trace w' = trace w @ [Exists pp, OpenRead pp, Load kj ?k_pw, OpenWrite kp,
                              Write kp k_pem, Exists pp, OpenRead pp, Load tj ?t_pw, OpenWrite tp, Write tp t_pem]"
            and "files w' = ((files w)(kp \<mapsto> File k_pem))(tp \<mapsto> File t_pem)"
            by simp_all
          with \<open>files w pp = Some (File content)\<close> second show ?thesis by blast
        qed
      qed
    qed
  qed
qed

lemma identity_step_fails:
  assumes fail: "get_key_store_pwd cfg w = (Inl e, w1) \<or>
      (\<exists>k_pw w0. get_key_store_pwd cfg w = (Inr k_pw, w0) \<and>
                write_pem loads kj k_pw kp w0 = (Inl e, w1))"
    and pp: "pp = cwd w @ ''/'' @ CRYPTO_MATERIAL_PASSWORD cfg"
    and kj: "kj = cwd w @ ''/'' @ K_CERTIFICATE_CONFIG cfg"
    and tj: "tj = cwd w @ ''/'' @ T_CERTIFICATE_CONFIG cfg"
    and kp: "kp = cwd w @ ''/'' @ PEM_K_CERTIFICATE_CONFIG cfg"
    and tp: "tp = cwd w @ ''/'' @ PEM_T_CERTIFICATE_CONFIG cfg"
  shows "write_pems cfg loads w = (Inl e, w1)"
    and "files w1 = files w"
    and "\<exists>pw. trace w1 = trace w @ [Exists pp] \<or>
              trace w1 = trace w @ [Exists pp, OpenRead pp] \<or>
              trace w1 = trace w @ [Exists pp, OpenRead pp, Load kj pw] \<or>
              trace w1 = trace w @ [Exists pp, OpenRead pp, Load kj pw, OpenWrite kp]"
proof -
  note unf = write_pems_unfold [OF kj tj kp tp]
  from fail show "write_pems cfg loads w = (Inl e, w1)"
    by (auto simp: unf get_key_store_pwd_def)
  from fail have
    "files w1 = files w \<and>
     (\<exists>pw. trace w1 = trace w @ [Exists pp] \<or>
              trace w1 = trace w @ [Exists pp, OpenRead pp] \<or>
              trace w1 = trace w @ [Exists pp, OpenRead pp, Load kj pw] \<or>
              trace w1 = trace w @ [Exists pp, OpenRead pp, Load kj pw, OpenWrite kp])"
  proof
    assume a: "get_key_store_pwd cfg w = (Inl e, w1)"
    from pp show ?thesis
    proof (cases rule: get_cert_pw_result)
      case absent
      with a show ?thesis by (auto simp: get_key_store_pwd_def)
    next
      case unreadable
      with a show ?thesis by (auto simp: get_key_store_pwd_def)
    next
      case (present content)
      with a show ?thesis by (simp add: get_key_store_pwd_def)
    qed
  next
    assume "\<exists>k_pw w0. get_key_store_pwd cfg w = (Inr k_pw, w0) \<and>
                write_pem loads kj k_pw kp w0 = (Inl e, w1)"
    then obtain k_pw w0 where rd: "get_cert_pw cfg w = (Inr k_pw, w0)"
      and wr: "write_pem loads kj k_pw kp w0 = (Inl e, w1)"
      by (auto simp: get_key_store_pwd_def)
    from pp show ?thesis
    proof (cases rule: get_cert_pw_result)
      case absent
      with rd show ?thesis by simp
    next
      case unreadable
      with rd show ?thesis by simp
    next
      case (present content)
      with rd have w0: "w0 = w\<lparr>trace := trace w @ [Exists pp, OpenRead pp]\<rparr>" by simp
      show ?thesis
      proof (cases rule: write_pem_result [of loads kj k_pw w0 kp])
        case (convert_failed e')
        with wr have "w1 = w0\<lparr>trace := trace w0 @ [Load kj k_pw]\<rparr>" by simp
        then show ?thesis unfolding w0 by auto
      next
        case (open_failed pem)
        with wr have "w1 = w0\<lparr>trace := trace w0 @ [Load kj k_pw, OpenWrite kp]\<rparr>" by simp
        then show ?thesis unfolding w0 by auto
      next
        case (written pem)
        with wr show ?thesis by simp
      qed
    qed
  qed
  then show "files w1 = files w"
    and "\<exists>pw. trace w1 = trace w @ [Exists pp] \<or>
              trace w1 = trace w @ [Exists pp, OpenRead pp] \<or>
              trace w1 = trace w @ [Exists pp, OpenRead pp, Load kj pw] \<or>
              trace w1 = trace w @ [Exists pp, OpenRead pp, Load kj pw, OpenWrite kp]"
    by blast+
qed

lemma new_events: "t1 = t @ evs \<Longrightarrow> drop (length t) t1 = evs"
  by simp

lemma convert_load_fails:
  assumes "KeyStore_load loads jks_path pw w = (Inl e, w1)"
  shows "convert_jks_to_pem loads jks_path pw w = (Inl e, w1)"
  using assms by (simp add: convert_jks_to_pem_def)

lemma KeyStore_load_file:
  assumes "files w path = Some (File input_bytes)"
  shows "KeyStore_load loads path pw w =
    (loads input_bytes pw, w\<lparr>trace := trace w @ [Load path pw]\<rparr>)"
  using assms by (simp add: KeyStore_load_def log_event_def)

lemma write_pems_runs:
  assumes pp: "pp = cwd w @ ''/'' @ CRYPTO_MATERIAL_PASSWORD cfg"
    and kj: "kj = cwd w @ ''/'' @ K_CERTIFICATE_CONFIG cfg"
    and tj: "tj = cwd w @ ''/'' @ T_CERTIFICATE_CONFIG cfg"
    and kp: "kp = cwd w @ ''/'' @ PEM_K_CERTIFICATE_CONFIG cfg"
    and tp: "tp = cwd w @ ''/'' @ PEM_T_CERTIFICATE_CONFIG cfg"
    and password: "files w pp = Some (File content)"
    and identity: "files w kj = Some (File k_bytes)" "loads k_bytes (filter keep_char content) = Inr ks"
    and trust: "files w tj = Some (File t_bytes)" "loads t_bytes (filter keep_char content) = Inr ts"
    and outputs: "files w kp \<noteq> Some Dir" "files w tp \<noteq> Some Dir"
    and apart: "kp \<noteq> pp" "kp \<noteq> tj"
  shows "write_pems cfg loads w =
    (Inr (),
     w\<lparr>trace := trace w @
          [Exists pp, OpenRead pp, Load kj (filter keep_char content), OpenWrite kp,
           Write kp (render_blocks (expected_blocks ks)),
           Exists pp, OpenRead pp, Load tj (filter keep_char content), OpenWrite tp,
           Write tp (render_blocks (expected_blocks ts))],
        files := ((files w)(kp \<mapsto> File (render_blocks (expected_blocks ks))))
                   (tp \<mapsto> File (render_blocks (expected_blocks ts)))\<rparr>)"
proof -
  let ?pw = "filter keep_char content"
  let ?k_pem = "render_blocks (expected_blocks ks)"
  let ?t_pem = "render_blocks (expected_blocks ts)"
  let ?w1 = "w\<lparr>trace := trace w @ [Exists pp, OpenRead pp]\<rparr>"
  let ?w2 = "w\<lparr>trace := trace w @ [Exists pp, OpenRead pp, Load kj ?pw, OpenWrite kp, Write kp ?k_pem],
                  files := (files w)(kp \<mapsto> File ?k_pem)\<rparr>"
  let ?w3 = "w\<lparr>trace := trace w @ [Exists pp, OpenRead pp, Load kj ?pw, OpenWrite kp, Write kp ?k_pem,
                                        Exists pp, OpenRead pp],
                  files := (files w)(kp \<mapsto> File ?k_pem)\<rparr>"
  have rd1: "get_cert_pw cfg w = (Inr ?pw, ?w1)"
    using get_cert_pw_present [of w cfg content, folded pp] password by simp
  have "KeyStore_load loads kj ?pw ?w1 = (Inr ks, ?w1\<lparr>trace := trace ?w1 @ [Load kj ?pw]\<rparr>)"
    using KeyStore_load_file [of ?w1 kj k_bytes loads ?pw] identity by simp
  then have "convert_jks_to_pem loads kj ?pw ?w1 =
      (Inr ?k_pem, ?w1\<lparr>trace := trace ?w1 @ [Load kj ?pw]\<rparr>)"
    by (rule convert_loaded)
  from write_pem_converted [OF this, of kp] outputs(1)
  have wr1: "write_pem loads kj ?pw kp ?w1 = (Inr (), ?w2)" by simp
  have pp2: "pp = cwd ?w2 @ ''/'' @ CRYPTO_MATERIAL_PASSWORD cfg" using pp by simp
  have "files ?w2 pp = Some (File content)" using password apart(1) by simp
  from get_cert_pw_present [of ?w2 cfg content, folded pp2, OF this]
  have rd2: "get_cert_pw cfg ?w2 = (Inr ?pw, ?w3)" by simp
  have "files ?w3 tj = Some (File t_bytes)" using trust(1) apart(2) by simp
  from KeyStore_load_file [OF this, of loads ?pw] trust(2)
  have "KeyStore_load loads tj ?pw ?w3 = (Inr ts, ?w3\<lparr>trace := trace ?w3 @ [Load tj ?pw]\<rparr>)"
    by simp
  then have "convert_jks_to_pem loads tj ?pw ?w3 =
      (Inr ?t_pem, ?w3\<lparr>trace := trace ?w3 @ [Load tj ?pw]\<rparr>)"
    by (rule convert_loaded)
  from write_pem_converted [OF this, of tp] outputs(2)
  have wr2: "write_pem loads tj ?pw tp ?w3 =
      (Inr (), w\<lparr>trace := trace w @
          [Exists pp, OpenRead pp, Load kj ?pw, OpenWrite kp, Write kp ?k_pem,
           Exists pp, OpenRead pp, Load tj ?pw, OpenWrite tp, Write tp ?t_pem],
        files := ((files w)(kp \<mapsto> File ?k_pem))(tp \<mapsto> File ?t_pem)\<rparr>)"
    by simp
  show ?thesis
    unfolding write_pems_unfold [OF kj tj kp tp] rd1 prod.case sum.case wr1 rd2 wr2
    by (rule refl)
qed

lemma identity_step_done:
  assumes rd: "get_key_store_pwd cfg w = (Inr k_pw, w0)"
    and wr: "write_pem loads kj k_pw kp w0 = (Inr (), w2)"
    and pp: "pp = cwd w @ ''/'' @ CRYPTO_MATERIAL_PASSWORD cfg"
  shows "\<exists>k_pem. w2 = w\<lparr>trace := trace w @ [Exists pp, OpenRead pp, Load kj k_pw, OpenWrite kp, Write kp k_pem],
                        files := (files w)(kp \<mapsto> File k_pem)\<rparr>"
  using pp
proof (cases rule: get_cert_pw_result)
  case absent
  with rd show ?thesis by (simp add: get_key_store_pwd_def)
next
  case unreadable
  with rd show ?thesis by (simp add: get_key_store_pwd_def)
next
  case (present content)
  with rd have wa: "w0 = w\<lparr>trace := trace w @ [Exists pp, OpenRead pp]\<rparr>"
    by (simp add: get_key_store_pwd_def)
  show ?thesis
  proof (cases rule: write_pem_result [of loads kj k_pw w0 kp])
    case (convert_failed e)
    with wr show ?thesis by simp
  next
    case (open_failed pem)
    with wr show ?thesis by simp
  next
    case (written k_pem)
    with wr have "w2 = w0\<lparr>trace := trace w0 @ [Load kj k_pw, OpenWrite kp, Write kp k_pem],
                   files := (files w0)(kp \<mapsto> File k_pem)\<rparr>"
      by simp
    then have "w2 = w\<lparr>trace := trace w @ [Exists pp, OpenRead pp, Load kj k_pw, OpenWrite kp, Write kp k_pem],
                        files := (files w)(kp \<mapsto> File k_pem)\<rparr>"
      unfolding wa by simp
    then show ?thesis by blast
  qed
qed

lemma trust_step_events:
  assumes pp: "pp = cwd w2 @ ''/'' @ CRYPTO_MATERIAL_PASSWORD cfg"
  shows "\<exists>evs. trace (snd (case get_trust_store_pwd cfg w2 of
                          (Inl e, w3) \<Rightarrow> (Inl e, w3)
                        | (Inr t_pw, w3) \<Rightarrow> write_pem loads tj t_pw tp w3)) =
                 trace w2 @ Exists pp # evs \<and>
               (\<forall>ev \<in> set evs. ev = OpenRead pp \<or> (\<exists>pw. ev = Load tj pw) \<or>
                                ev = OpenWrite tp \<or> (\<exists>s. ev = Write tp s))"
  using pp
proof (cases rule: get_cert_pw_result)
  case absent
  then show ?thesis by (simp add: get_trust_store_pwd_def)
next
  case unreadable
  then show ?thesis by (simp add: get_trust_store_pwd_def)
next
  case (present content)
  let ?t_pw = "filter keep_char content"
  let ?wc = "w2\<lparr>trace := trace w2 @ [Exists pp, OpenRead pp]\<rparr>"
  from present(2) have rd: "get_trust_store_pwd cfg w2 = (Inr ?t_pw, ?wc)"
    by (simp add: get_trust_store_pwd_def)
  show ?thesis
  proof (cases rule: write_pem_result [of loads tj ?t_pw ?wc tp])
    case (convert_failed e)
    then have "trace (snd (case get_trust_store_pwd cfg w2 of
                          (Inl e, w3) \<Rightarrow> (Inl e, w3)
                        | (Inr t_pw, w3) \<Rightarrow> write_pem loads tj t_pw tp w3)) =
        trace w2 @ Exists pp # [OpenRead pp, Load tj ?t_pw]"
      unfolding rd by simp
    then show ?thesis by (rule exI [where x = "[OpenRead pp, Load tj ?t_pw]", OF conjI]) auto
  next
    case (open_failed pem)
    then have "trace (snd (case get_trust_store_pwd cfg w2 of
                          (Inl e, w3) \<Rightarrow> (Inl e, w3)
                        | (Inr t_pw, w3) \<Rightarrow> write_pem loads tj t_pw tp w3)) =
        trace w2 @ Exists pp # [OpenRead pp, Load tj ?t_pw, OpenWrite tp]"
      unfolding rd by simp
    then show ?thesis by (rule exI [where x = "[OpenRead pp, Load tj ?t_pw, OpenWrite tp]", OF conjI]) auto
  next
    case (written pem)
    then have "trace (snd (case get_trust_store_pwd cfg w2 of
                          (Inl e, w3) \<Rightarrow> (Inl e, w3)
                        | (Inr t_pw, w3) \<Rightarrow> write_pem loads tj t_pw tp w3)) =
        trace w2 @ Exists pp # [OpenRead pp, Load tj ?t_pw, OpenWrite tp, Write tp pem]"
      unfolding rd by simp
    then show ?thesis
      by (rule exI [where x = "[OpenRead pp, Load tj ?t_pw, OpenWrite tp, Write tp pem]", OF conjI]) auto
  qed
qed

lemma write_pems_after_identity:
  assumes rd: "get_key_store_pwd cfg w = (Inr k_pw, w0)"
    and wr: "write_pem loads kj k_pw kp w0 = (Inr (), w2)"
    and kj: "kj = cwd w @ ''/'' @ K_CERTIFICATE_CONFIG cfg"
    and tj: "tj = cwd w @ ''/'' @ T_CERTIFICATE_CONFIG cfg"
    and kp: "kp = cwd w @ ''/'' @ PEM_K_CERTIFICATE_CONFIG cfg"
    and tp: "tp = cwd w @ ''/'' @ PEM_T_CERTIFICATE_CONFIG cfg"
  shows "write_pems cfg loads w =
    (case get_trust_store_pwd cfg w2 of
       (Inl e, w3) \<Rightarrow> (Inl e, w3)
     | (Inr t_pw, w3) \<Rightarrow> write_pem loads tj t_pw tp w3)"
  using rd wr
  by (simp add: write_pems_unfold [OF kj tj kp tp] get_key_store_pwd_def get_trust_store_pwd_def)

section \<open>The small deployment, run\<close>

lemma example_paths:
  "cwd (example_world c) @ ''/'' @ K_CERTIFICATE_CONFIG example_cfg = ''/srv/k_certificate''"
  "cwd (example_world c) @ ''/'' @ T_CERTIFICATE_CONFIG example_cfg = ''/srv/t_certificate''"
  "cwd (example_world c) @ ''/'' @ PEM_K_CERTIFICATE_CONFIG example_cfg = ''/srv/k_certificate.pem''"
  "cwd (example_world c) @ ''/'' @ PEM_T_CERTIFICATE_CONFIG example_cfg = ''/srv/t_certificate.pem''"
  by (simp_all add: example_world_def example_cfg_def)

lemma example_nodes:
  "files (example_world c) ''/srv/k_certificate'' = Some (File ''identity'')"
  "files (example_world c) ''/srv/t_certificate'' = Some (File ''trust'')"
  "files (example_world c) ''/srv/k_certificate.pem'' = Some (File ''stale'')"
  "files (example_world c) ''/srv/t_certificate.pem'' = None"
  by (simp_all add: example_world_def example_files_def)

lemma example_trace: "trace (example_world c) = []"
  by (simp add: example_world_def)

lemma keep_secret: "filter keep_char ''secret'' = ''secret''"
  by (simp add: keep_char_def printable_defs)

lemma keep_wrong: "filter keep_char ''wrong'' = ''wrong''"
  by (simp add: keep_char_def printable_defs)

lemma example_run:
  "write_pems example_cfg example_loads (example_world ''secret'') =
    (Inr (),
     (example_world ''secret'')\<lparr>trace :=
          [Exists ''/srv/material_passwd'', OpenRead ''/srv/material_passwd'',
           Load ''/srv/k_certificate'' ''secret'', OpenWrite ''/srv/k_certificate.pem'',
           Write ''/srv/k_certificate.pem'' (render_blocks (expected_blocks example_store)),
           Exists ''/srv/material_passwd'', OpenRead ''/srv/material_passwd'',
           Load ''/srv/t_certificate'' ''secret'', OpenWrite ''/srv/t_certificate.pem'',
           Write ''/srv/t_certificate.pem'' (render_blocks (expected_blocks example_trust_store))],
        files := ((files (example_world ''secret''))
                   (''/srv/k_certificate.pem'' \<mapsto> File (render_blocks (expected_blocks example_store))))
                   (''/srv/t_certificate.pem'' \<mapsto> File (render_blocks (expected_blocks example_trust_store)))\<rparr>)"
proof -
  have "write_pems example_cfg example_loads (example_world ''secret'') =
    (Inr (),
     (example_world ''secret'')\<lparr>trace := trace (example_world ''secret'') @
          [Exists ''/srv/material_passwd'', OpenRead ''/srv/material_passwd'',
           Load ''/srv/k_certificate'' (filter keep_char ''secret''), OpenWrite ''/srv/k_certificate.pem'',
           Write ''/srv/k_certificate.pem'' (render_blocks (expected_blocks example_store)),
           Exists ''/srv/material_passwd'', OpenRead ''/srv/material_passwd'',
           Load ''/srv/t_certificate'' (filter keep_char ''secret''), OpenWrite ''/srv/t_certificate.pem'',
           Write ''/srv/t_certificate.pem'' (render_blocks (expected_blocks example_trust_store))],
        files := ((files (example_world ''secret''))
                   (''/srv/k_certificate.pem'' \<mapsto> File (render_blocks (expected_blocks example_store))))
                   (''/srv/t_certificate.pem'' \<mapsto> File (render_blocks (expected_blocks example_trust_store)))\<rparr>)"
  proof (rule write_pems_runs)
    show "''/srv/material_passwd'' = cwd (example_world ''secret'') @ ''/'' @ CRYPTO_MATERIAL_PASSWORD example_cfg"
      by (simp only: example_password_path)
    show "''/srv/k_certificate'' = cwd (example_world ''secret'') @ ''/'' @ K_CERTIFICATE_CONFIG example_cfg"
      by (simp only: example_paths)
    show "''/srv/t_certificate'' = cwd (example_world ''secret'') @ ''/'' @ T_CERTIFICATE_CONFIG example_cfg"
      by (simp only: example_paths)
    show "''/srv/k_certificate.pem'' = cwd (example_world ''secret'') @ ''/'' @ PEM_K_CERTIFICATE_CONFIG example_cfg"
      by (simp only: example_paths)
    show "''/srv/t_certificate.pem'' = cwd (example_world ''secret'') @ ''/'' @ PEM_T_CERTIFICATE_CONFIG example_cfg"
      by (simp only: example_paths)
    show "files (example_world ''secret'') ''/srv/material_passwd'' = Some (File ''secret'')"
      by (rule example_password_file)
    show "files (example_world ''secret'') ''/srv/k_certificate'' = Some (File ''identity'')"
      by (rule example_nodes)
    show "files (example_world ''secret'') ''/srv/t_certificate'' = Some (File ''trust'')"
      by (rule example_nodes)
    show "example_loads ''identity'' (filter keep_char ''secret'') = Inr example_store"
      by (simp only: keep_secret) (simp add: example_loads_def)
    show "example_loads ''trust'' (filter keep_char ''secret'') = Inr example_trust_store"
      by (simp only: keep_secret) (simp add: example_loads_def)
    show "files (example_world ''secret'') ''/srv/k_certificate.pem'' \<noteq> Some Dir"
      by (simp add: example_nodes)
    show "files (example_world ''secret'') ''/srv/t_certificate.pem'' \<noteq> Some Dir"
      by (simp add: example_nodes)
    show "''/srv/k_certificate.pem'' \<noteq> ''/srv/material_passwd''" by simp
    show "''/srv/k_certificate.pem'' \<noteq> ''/srv/t_certificate''" by simp
  qed
  then show ?thesis by (simp only: example_trace keep_secret append_Nil)
qed


lemma example_wrong_read:
  "get_key_store_pwd example_cfg (example_world ''wrong'') =
     (Inr ''wrong'',
      (example_world ''wrong'')\<lparr>trace := [Exists ''/srv/material_passwd'', OpenRead ''/srv/material_passwd'']\<rparr>)"
proof -
  have "files (example_world ''wrong'')
      (cwd (example_world ''wrong'') @ ''/'' @ CRYPTO_MATERIAL_PASSWORD example_cfg) = Some (File ''wrong'')"
    by (simp only: example_password_path example_password_file)
  from get_cert_pw_present [OF this] show ?thesis
    by (simp only: get_key_store_pwd_def example_password_path example_trace keep_wrong append_Nil)
qed

lemma example_wrong_convert:
  assumes "files w ''/srv/k_certificate'' = Some (File ''identity'')"
  shows "convert_jks_to_pem example_loads ''/srv/k_certificate'' ''wrong'' w =
     (Inl (KeystoreException ''bad password''),
      w\<lparr>trace := trace w @ [Load ''/srv/k_certificate'' ''wrong'']\<rparr>)"
proof -
  have "example_loads ''identity'' ''wrong'' = Inl (KeystoreException ''bad password'')"
    by (simp add: example_loads_def)
  with KeyStore_load_file [OF assms, of example_loads "''wrong''"]
  have "KeyStore_load example_loads ''/srv/k_certificate'' ''wrong'' w =
     (Inl (KeystoreException ''bad password''), w\<lparr>trace := trace w @ [Load ''/srv/k_certificate'' ''wrong'']\<rparr>)"
    by simp
  then show ?thesis by (rule convert_load_fails)
qed

lemma example_secret_read:
  "get_key_store_pwd example_cfg (example_world ''secret'') =
     (Inr ''secret'',
      (example_world ''secret'')\<lparr>trace := [Exists ''/srv/material_passwd'', OpenRead ''/srv/material_passwd'']\<rparr>)"
proof -
  have "files (example_world ''secret'')
      (cwd (example_world ''secret'') @ ''/'' @ CRYPTO_MATERIAL_PASSWORD example_cfg) = Some (File ''secret'')"
    by (simp only: example_password_path example_password_file)
  from get_cert_pw_present [OF this] show ?thesis
    by (simp only: get_key_store_pwd_def example_password_path example_trace keep_secret append_Nil)
qed

lemma example_locked_identity:
  "write_pem example_loads_trust_locked ''/srv/k_certificate'' ''secret'' ''/srv/k_certificate.pem''
     ((example_world ''secret'')\<lparr>trace := [Exists ''/srv/material_passwd'', OpenRead ''/srv/material_passwd'']\<rparr>) =
   (Inr (),
    (example_world ''secret'')\<lparr>trace :=
        [Exists ''/srv/material_passwd'', OpenRead ''/srv/material_passwd'',
         Load ''/srv/k_certificate'' ''secret'', OpenWrite ''/srv/k_certificate.pem'',
         Write ''/srv/k_certificate.pem'' (render_blocks (expected_blocks example_store))],
      files := (files (example_world ''secret''))
         (''/srv/k_certificate.pem'' \<mapsto> File (render_blocks (expected_blocks example_store)))\<rparr>)"
proof -
  let ?wa = "(example_world ''secret'')\<lparr>trace := [Exists ''/srv/material_passwd'', OpenRead ''/srv/material_passwd'']\<rparr>"
  have node: "files ?wa ''/srv/k_certificate'' = Some (File ''identity'')"
    by (simp add: example_nodes)
  have "example_loads_trust_locked ''identity'' ''secret'' = Inr example_store"
    by (simp add: example_loads_trust_locked_def example_loads_def)
  with KeyStore_load_file [OF node, of example_loads_trust_locked "''secret''"]
  have "KeyStore_load example_loads_trust_locked ''/srv/k_certificate'' ''secret'' ?wa =
      (Inr example_store, ?wa\<lparr>trace := trace ?wa @ [Load ''/srv/k_certificate'' ''secret'']\<rparr>)"
    by simp
  then have conv: "convert_jks_to_pem example_loads_trust_locked ''/srv/k_certificate'' ''secret'' ?wa =
      (Inr (render_blocks (expected_blocks example_store)),
       ?wa\<lparr>trace := trace ?wa @ [Load ''/srv/k_certificate'' ''secret'']\<rparr>)"
    by (rule convert_loaded)
  have free: "files ?wa ''/srv/k_certificate.pem'' \<noteq> Some Dir"
    by (simp add: example_nodes)
  from write_pem_converted [OF conv free] show ?thesis by simp
qed

lemma example_locked_trust:
  assumes "files w ''/srv/t_certificate'' = Some (File ''trust'')"
  shows "write_pem example_loads_trust_locked ''/srv/t_certificate'' pw ''/srv/t_certificate.pem'' w =
     (Inl (KeystoreException ''bad password''),
      w\<lparr>trace := trace w @ [Load ''/srv/t_certificate'' pw]\<rparr>)"
proof -
  have "example_loads_trust_locked ''trust'' pw = Inl (KeystoreException ''bad password'')"
    by (simp add: example_loads_trust_locked_def)
  with KeyStore_load_file [OF assms, of example_loads_trust_locked pw]
  have "KeyStore_load example_loads_trust_locked ''/srv/t_certificate'' pw w =
     (Inl (KeystoreException ''bad password''), w\<lparr>trace := trace w @ [Load ''/srv/t_certificate'' pw]\<rparr>)"
    by simp
  then have "convert_jks_to_pem example_loads_trust_locked ''/srv/t_certificate'' pw w =
     (Inl (KeystoreException ''bad password''), w\<lparr>trace := trace w @ [Load ''/srv/t_certificate'' pw]\<rparr>)"
    by (rule convert_load_fails)
  then show ?thesis by (rule write_pem_convert_fails(1))
qed

lemma example_second_read:
  "get_trust_store_pwd example_cfg
     ((example_world ''secret'')\<lparr>trace := evs,
        files := (files (example_world ''secret''))(''/srv/k_certificate.pem'' \<mapsto> File pem)\<rparr>) =
   (Inr ''secret'',
    (example_world ''secret'')\<lparr>trace := evs @ [Exists ''/srv/material_passwd'', OpenRead ''/srv/material_passwd''],
        files := (files (example_world ''secret''))(''/srv/k_certificate.pem'' \<mapsto> File pem)\<rparr>)"
proof -
  let ?wb = "(example_world ''secret'')\<lparr>trace := evs,
        files := (files (example_world ''secret''))(''/srv/k_certificate.pem'' \<mapsto> File pem)\<rparr>"
  have path: "cwd ?wb @ ''/'' @ CRYPTO_MATERIAL_PASSWORD example_cfg = ''/srv/material_passwd''"
    using example_password_path [of "''secret''"] by simp
  have "files ?wb ''/srv/material_passwd'' = Some (File ''secret'')"
    by (simp add: example_password_file)
  then have "files ?wb (cwd ?wb @ ''/'' @ CRYPTO_MATERIAL_PASSWORD example_cfg) = Some (File ''secret'')"
    by (simp only: path)
  from get_cert_pw_present [OF this] show ?thesis
    unfolding get_trust_store_pwd_def path keep_secret by simp
qed

section \<open>The claims\<close>

text \<open>
  Claim C1. A block written by \<open>bytes_to_pem_str\<close> for the bytes \<open>d\<close> under any label
  reads back: with the two marker lines taken off and the line terminators removed, its
  body decodes to \<open>d\<close>. Hence the text that \<open>convert_jks_to_pem\<close> gives for a loaded
  store reads back, block by block, as the key bytes and certificate bytes of the store.
\<close>

theorem pem_round_trip:
  "pem_block_decode L (bytes_to_pem_str d L) = Some d \<and>
   (KeyStore_load loads jks_path pw w = (Inr ks, w1) \<longrightarrow>
      (\<exists>pem. convert_jks_to_pem loads jks_path pw w = (Inr pem, w1) \<and>
             map_option (map snd) (parse_pem pem) = Some (store_bytes ks)))"
proof (intro conjI impI)
  show "pem_block_decode L (bytes_to_pem_str d L) = Some d"
    by (rule block_decode)
next
  assume "KeyStore_load loads jks_path pw w = (Inr ks, w1)"
  then have "convert_jks_to_pem loads jks_path pw w = (Inr (render_blocks (expected_blocks ks)), w1)"
    by (rule convert_loaded)
  moreover have "map_option (map snd) (parse_pem (render_blocks (expected_blocks ks))) = Some (store_bytes ks)"
    by (simp add: parse_expected map_snd_expected)
  ultimately show "\<exists>pem. convert_jks_to_pem loads jks_path pw w = (Inr pem, w1) \<and>
             map_option (map snd) (parse_pem pem) = Some (store_bytes ks)"
    by blast
qed

theorem pem_round_trip_witness:
  "pem_block_decode ''CERTIFICATE'' (bytes_to_pem_str [0x4C, 0x45, 0x41, 0x46] ''CERTIFICATE'') =
     Some [0x4C, 0x45, 0x41, 0x46] \<and>
   (\<exists>pem. convert_jks_to_pem example_loads ''/srv/k_certificate'' ''secret'' (example_world ''secret'') =
            (Inr pem, log_event (Load ''/srv/k_certificate'' ''secret'') (example_world ''secret'')) \<and>
          map_option (map snd) (parse_pem pem) =
            Some [[0x30, 0x82, 0x04], [0x4C, 0x45, 0x41, 0x46], [0x52, 0x4F], [0x30, 0x41, 0x02], [0x54]])"
  using pem_round_trip [of "''CERTIFICATE''" "[0x4C, 0x45, 0x41, 0x46]" example_loads
      "''/srv/k_certificate''" "''secret''" "example_world ''secret''" example_store
      "log_event (Load ''/srv/k_certificate'' ''secret'') (example_world ''secret'')"]
    example_load example_store_bytes
  by simp

text \<open>
  Claim C2. The text of a block is the begin marker line ended by a line feed, the
  Base64 text of the bytes cut into lines of exactly 64 characters, the last one holding
  the one to 64 characters that are left, joined by carriage return and line feed and
  followed by one line feed, and the end marker line ended by a line feed. The text of
  a converted store is a sequence of blocks labelled \<open>RSA PRIVATE KEY\<close>,
  \<open>PRIVATE KEY\<close> or \<open>CERTIFICATE\<close> and of nothing else.
\<close>

theorem pem_text_format:
  "bytes_to_pem_str d L =
     ''-----BEGIN '' @ L @ ''-----'' @ [LF] @
     str_join [CR, LF] (hard_wrap 64 (b64encode d)) @ [LF] @
     ''-----END '' @ L @ ''-----'' @ [LF] \<and>
   concat (hard_wrap 64 (b64encode d)) = b64encode d \<and>
   (\<forall>l \<in> set (butlast (hard_wrap 64 (b64encode d))). length l = 64) \<and>
   (hard_wrap 64 (b64encode d) \<noteq> [] \<longrightarrow>
      0 < length (last (hard_wrap 64 (b64encode d))) \<and>
      length (last (hard_wrap 64 (b64encode d))) \<le> 64) \<and>
   (KeyStore_load loads jks_path pw w = (Inr ks, w1) \<longrightarrow>
      (\<exists>blocks. convert_jks_to_pem loads jks_path pw w = (Inr (render_blocks blocks), w1) \<and>
                parse_pem (render_blocks blocks) = Some blocks \<and>
                (\<forall>b \<in> set blocks. fst b \<in> {''RSA PRIVATE KEY'', ''PRIVATE KEY'', ''CERTIFICATE''})))"
proof -
  have hw: "hard_wrap 64 (b64encode d) = textwrap_wrap (b64encode d) 64"
    by (simp add: wrap_hard_wrap)
  have shape: "bytes_to_pem_str d L =
     ''-----BEGIN '' @ L @ ''-----'' @ [LF] @
     str_join [CR, LF] (hard_wrap 64 (b64encode d)) @ [LF] @
     ''-----END '' @ L @ ''-----'' @ [LF]"
    unfolding hw by (simp add: bytes_to_pem_str_def)
  have cat: "concat (hard_wrap 64 (b64encode d)) = b64encode d"
    unfolding hw by (simp add: wrap_concat)
  have full: "\<forall>l \<in> set (butlast (hard_wrap 64 (b64encode d))). length l = 64"
    unfolding hw using wrap_butlast_full [of 64 _ "b64encode d"] by simp
  have lastl: "hard_wrap 64 (b64encode d) \<noteq> [] \<longrightarrow>
      0 < length (last (hard_wrap 64 (b64encode d))) \<and>
      length (last (hard_wrap 64 (b64encode d))) \<le> 64"
    unfolding hw using wrap_last_bounds [of 64 "b64encode d"] by simp
  have labels: "KeyStore_load loads jks_path pw w = (Inr ks, w1) \<longrightarrow>
      (\<exists>blocks. convert_jks_to_pem loads jks_path pw w = (Inr (render_blocks blocks), w1) \<and>
                parse_pem (render_blocks blocks) = Some blocks \<and>
                (\<forall>b \<in> set blocks. fst b \<in> {''RSA PRIVATE KEY'', ''PRIVATE KEY'', ''CERTIFICATE''}))"
  proof
    assume "KeyStore_load loads jks_path pw w = (Inr ks, w1)"
    then have "convert_jks_to_pem loads jks_path pw w = (Inr (render_blocks (expected_blocks ks)), w1)"
      by (rule convert_loaded)
    moreover have "parse_pem (render_blocks (expected_blocks ks)) = Some (expected_blocks ks)"
      by (rule parse_expected)
    moreover have "\<forall>b \<in> set (expected_blocks ks). fst b \<in> {''RSA PRIVATE KEY'', ''PRIVATE KEY'', ''CERTIFICATE''}"
      using expected_labels by blast
    ultimately show "\<exists>blocks. convert_jks_to_pem loads jks_path pw w = (Inr (render_blocks blocks), w1) \<and>
                parse_pem (render_blocks blocks) = Some blocks \<and>
                (\<forall>b \<in> set blocks. fst b \<in> {''RSA PRIVATE KEY'', ''PRIVATE KEY'', ''CERTIFICATE''})"
      by blast
  qed
  from shape cat full lastl labels show ?thesis by (intro conjI)
qed

theorem pem_text_format_witness:
  "bytes_to_pem_str (replicate 49 0xAB) ''CERTIFICATE'' =
     ''-----BEGIN CERTIFICATE-----'' @ [LF] @
     ''q6urq6urq6urq6urq6urq6urq6urq6urq6urq6urq6urq6urq6urq6urq6urq6ur'' @ [CR, LF] @
     ''qw=='' @ [LF] @
     ''-----END CERTIFICATE-----'' @ [LF] \<and>
   (\<exists>blocks. convert_jks_to_pem example_loads ''/srv/k_certificate'' ''secret'' (example_world ''secret'') =
                (Inr (render_blocks blocks),
                 log_event (Load ''/srv/k_certificate'' ''secret'') (example_world ''secret'')) \<and>
              parse_pem (render_blocks blocks) = Some blocks \<and>
              (\<forall>b \<in> set blocks. fst b \<in> {''RSA PRIVATE KEY'', ''PRIVATE KEY'', ''CERTIFICATE''}))"
proof -
  have lines: "hard_wrap 64 (b64encode (replicate 49 0xAB)) =
      [''q6urq6urq6urq6urq6urq6urq6urq6urq6urq6urq6urq6urq6urq6urq6urq6ur'', ''qw=='']"
    by code_simp
  note fmt =
    pem_text_format [of "replicate 49 0xAB" "''CERTIFICATE''" example_loads
      "''/srv/k_certificate''" "''secret''" "example_world ''secret''" example_store
      "log_event (Load ''/srv/k_certificate'' ''secret'') (example_world ''secret'')"]
  from fmt have "bytes_to_pem_str (replicate 49 0xAB) ''CERTIFICATE'' =
     ''-----BEGIN '' @ ''CERTIFICATE'' @ ''-----'' @ [LF] @
     str_join [CR, LF] (hard_wrap 64 (b64encode (replicate 49 0xAB))) @ [LF] @
     ''-----END '' @ ''CERTIFICATE'' @ ''-----'' @ [LF]"
    by (rule conjunct1)
  then have block: "bytes_to_pem_str (replicate 49 0xAB) ''CERTIFICATE'' =
     ''-----BEGIN CERTIFICATE-----'' @ [LF] @
     ''q6urq6urq6urq6urq6urq6urq6urq6urq6urq6urq6urq6urq6urq6urq6urq6ur'' @ [CR, LF] @
     ''qw=='' @ [LF] @
     ''-----END CERTIFICATE-----'' @ [LF]"
    unfolding lines by simp
  from fmt example_load have
    "\<exists>blocks. convert_jks_to_pem example_loads ''/srv/k_certificate'' ''secret'' (example_world ''secret'') =
                (Inr (render_blocks blocks),
                 log_event (Load ''/srv/k_certificate'' ''secret'') (example_world ''secret'')) \<and>
              parse_pem (render_blocks blocks) = Some blocks \<and>
              (\<forall>b \<in> set blocks. fst b \<in> {''RSA PRIVATE KEY'', ''PRIVATE KEY'', ''CERTIFICATE''})"
    by blast
  with block show ?thesis by (rule conjI)
qed

text \<open>
  Claim C3, as amended. When the password file is present, the readers return its
  content without the characters that are outside Python's \<open>string.printable\<close> and
  without \<open>@\<close>, the other characters in their order. The characters kept are the
  printable characters of ASCII, codes 0x20 to 0x7E, and also the five control
  characters tab, line feed, vertical tab, form feed and carriage return, codes 9 to 13.
  The content \<open>p@ss\<close>, the control character of code 1, \<open>word\<close> gives \<open>pssword\<close>.
\<close>

theorem password_sanitised:
  assumes "files w (cwd w @ ''/'' @ CRYPTO_MATERIAL_PASSWORD cfg) = Some (File content)"
  shows "fst (get_cert_pw cfg w) = Inr (filter printable_or_whitespace_keep content) \<and>
         fst (get_key_store_pwd cfg w) = Inr (filter printable_or_whitespace_keep content) \<and>
         fst (get_trust_store_pwd cfg w) = Inr (filter printable_or_whitespace_keep content)"
  using get_cert_pw_present [OF assms]
  by (simp add: keep_char_codes get_key_store_pwd_def get_trust_store_pwd_def)

theorem password_sanitised_witness:
  "fst (get_cert_pw example_cfg (example_world (''p@ss'' @ [CHR 0x01] @ ''word''))) = Inr ''pssword''"
proof -
  have kept: "filter printable_or_whitespace_keep (''p@ss'' @ [CHR 0x01] @ ''word'') = ''pssword''"
    by (simp add: printable_or_whitespace_keep_def ascii_printable_def ascii_control_whitespace_def)
  have "files (example_world (''p@ss'' @ [CHR 0x01] @ ''word''))
          (cwd (example_world (''p@ss'' @ [CHR 0x01] @ ''word'')) @ ''/'' @
           CRYPTO_MATERIAL_PASSWORD example_cfg) =
        Some (File (''p@ss'' @ [CHR 0x01] @ ''word''))"
    by (simp only: example_password_path example_password_file)
  from password_sanitised [OF this] show ?thesis
    by (simp only: kept)
qed

text \<open>
  Claim C3 as stated, with the printable characters of ASCII taken as the codes 0x20 to
  0x7E, fails on a password file that ends in a line feed: the content \<open>pw\<close> followed
  by a line feed is returned with the line feed, which is not a printable character.
\<close>

theorem ascii_printable_only_counterexample:
  "fst (get_cert_pw example_cfg (example_world (''pw'' @ [LF]))) = Inr (''pw'' @ [LF]) \<and>
   filter spec_keep (''pw'' @ [LF]) = ''pw'' \<and>
   fst (get_cert_pw example_cfg (example_world (''pw'' @ [LF]))) \<noteq> Inr (filter spec_keep (''pw'' @ [LF]))"
proof -
  have present: "files (example_world (''pw'' @ [LF]))
          (cwd (example_world (''pw'' @ [LF])) @ ''/'' @ CRYPTO_MATERIAL_PASSWORD example_cfg) =
        Some (File (''pw'' @ [LF]))"
    by (simp only: example_password_path example_password_file)
  have kept: "filter keep_char (''pw'' @ [LF]) = ''pw'' @ [LF]"
    by (simp add: keep_char_def printable_defs LF_def)
  have spec: "filter spec_keep (''pw'' @ [LF]) = ''pw''"
    by (simp add: spec_keep_def ascii_printable_def LF_def)
  have run: "fst (get_cert_pw example_cfg (example_world (''pw'' @ [LF]))) = Inr (''pw'' @ [LF])"
    by (simp only: get_cert_pw_present [OF present] kept fst_conv)
  show ?thesis
    unfolding run spec by simp
qed

text \<open>
  Claim C4. The reader fails with the error of line 44, the assertion that the password
  file is not present, exactly when no file or directory is at the password path under
  the working directory. With a file there it does not raise this error.
\<close>

theorem password_file_absent:
  "(\<exists>msg. fst (get_cert_pw cfg w) = Inl (AssertionError msg)) =
     (files w (cwd w @ ''/'' @ CRYPTO_MATERIAL_PASSWORD cfg) = None) \<and>
   (\<exists>msg. fst (get_key_store_pwd cfg w) = Inl (AssertionError msg)) =
     (files w (cwd w @ ''/'' @ CRYPTO_MATERIAL_PASSWORD cfg) = None)"
proof -
  have "(\<exists>msg. fst (get_cert_pw cfg w) = Inl (AssertionError msg)) =
     (files w (cwd w @ ''/'' @ CRYPTO_MATERIAL_PASSWORD cfg) = None)"
  proof (cases rule: node_cases [of w "cwd w @ ''/'' @ CRYPTO_MATERIAL_PASSWORD cfg"])
    case no_node
    then show ?thesis by (simp add: get_cert_pw_absent)
  next
    case dir_node
    then show ?thesis by (simp add: get_cert_pw_dir)
  next
    case (file_node content)
    then show ?thesis by (simp add: get_cert_pw_present)
  qed
  then show ?thesis by (simp add: get_key_store_pwd_def)
qed

theorem password_file_absent_witness:
  "(\<exists>msg. fst (get_cert_pw example_cfg \<lparr>cwd = ''/srv'', files = Map.empty, trace = []\<rparr>) =
       Inl (AssertionError msg)) \<and>
   \<not> (\<exists>msg. fst (get_cert_pw example_cfg (example_world ''secret'')) = Inl (AssertionError msg))"
proof -
  let ?bare = "\<lparr>cwd = ''/srv'', files = Map.empty, trace = []\<rparr>"
  have missing: "files ?bare (cwd ?bare @ ''/'' @ CRYPTO_MATERIAL_PASSWORD example_cfg) = None"
    by simp
  have present: "files (example_world ''secret'')
      (cwd (example_world ''secret'') @ ''/'' @ CRYPTO_MATERIAL_PASSWORD example_cfg) \<noteq> None"
    by (simp only: example_password_path example_password_file) simp
  from password_file_absent [of example_cfg ?bare] missing
  have "\<exists>msg. fst (get_cert_pw example_cfg ?bare) = Inl (AssertionError msg)"
    by blast
  moreover from password_file_absent [of example_cfg "example_world ''secret''"] present
  have "\<not> (\<exists>msg. fst (get_cert_pw example_cfg (example_world ''secret'')) = Inl (AssertionError msg))"
    by blast
  ultimately show ?thesis by (rule conjI)
qed

text \<open>
  Claim C5. For a loaded store the text is the blocks of \<open>expected_blocks\<close>, in that
  order: for each private-key entry, in the order of the store, its key block and then
  the certificates of its chain in chain order; then the trusted certificates in the
  order of the store. The aliases play no part, and reading the text back gives the
  blocks in this very order.
\<close>

theorem block_order:
  assumes "KeyStore_load loads jks_path pw w = (Inr ks, w1)"
  shows "convert_jks_to_pem loads jks_path pw w = (Inr (render_blocks (expected_blocks ks)), w1) \<and>
         parse_pem (render_blocks (expected_blocks ks)) = Some (expected_blocks ks)"
  using convert_loaded [OF assms] parse_expected [of ks] by simp

theorem block_order_witness:
  "\<exists>pem. convert_jks_to_pem example_loads ''/srv/k_certificate'' ''secret'' (example_world ''secret'') =
       (Inr pem, log_event (Load ''/srv/k_certificate'' ''secret'') (example_world ''secret'')) \<and>
     parse_pem pem =
       Some [(''RSA PRIVATE KEY'', [0x30, 0x82, 0x04]), (''CERTIFICATE'', [0x4C, 0x45, 0x41, 0x46]),
             (''CERTIFICATE'', [0x52, 0x4F]), (''PRIVATE KEY'', [0x30, 0x41, 0x02]),
             (''CERTIFICATE'', [0x54])]"
  using block_order [OF example_load] example_expected_blocks by simp

text \<open>
  Claim C6. Among the blocks of the text, those that are not certificates are the key
  blocks, one for each private-key entry and in the order of the entries: labelled
  \<open>RSA PRIVATE KEY\<close> and holding \<open>pkey\<close> when the algorithm of the entry is the RSA
  object identifier, labelled \<open>PRIVATE KEY\<close> and holding \<open>pkey_pkcs8\<close> otherwise.
\<close>

theorem key_block_label:
  assumes "KeyStore_load loads jks_path pw w = (Inr ks, w1)"
  shows "\<exists>pem blocks. convert_jks_to_pem loads jks_path pw w = (Inr pem, w1) \<and>
           parse_pem pem = Some blocks \<and>
           filter (\<lambda>b. fst b \<noteq> ''CERTIFICATE'') blocks =
             map (\<lambda>(alias, pk). if algorithm_oid pk = RSA_ENCRYPTION_OID
                                 then (''RSA PRIVATE KEY'', pkey pk)
                                 else (''PRIVATE KEY'', pkey_pkcs8 pk)) (private_keys ks)"
proof -
  have "filter (\<lambda>b. fst b \<noteq> ''CERTIFICATE'') (expected_blocks ks) =
      map (\<lambda>(alias, pk). if algorithm_oid pk = RSA_ENCRYPTION_OID
                          then (''RSA PRIVATE KEY'', pkey pk)
                          else (''PRIVATE KEY'', pkey_pkcs8 pk)) (private_keys ks)"
    by (simp add: filter_expected key_block_def)
  with convert_loaded [OF assms] parse_expected [of ks] show ?thesis by blast
qed

theorem key_block_label_witness:
  "\<exists>pem blocks. convert_jks_to_pem example_loads ''/srv/k_certificate'' ''secret'' (example_world ''secret'') =
       (Inr pem, log_event (Load ''/srv/k_certificate'' ''secret'') (example_world ''secret'')) \<and>
     parse_pem pem = Some blocks \<and>
     filter (\<lambda>b. fst b \<noteq> ''CERTIFICATE'') blocks =
       [(''RSA PRIVATE KEY'', [0x30, 0x82, 0x04]), (''PRIVATE KEY'', [0x30, 0x41, 0x02])]"
  using key_block_label [OF example_load]
  by (simp add: example_store_def RSA_ENCRYPTION_OID_def)




text \<open>
  Claim C8. \<open>write_pems\<close> does the identity store first and the trust store after it,
  and stops at the first error.

  When the identity step fails, whether in reading the password or in \<open>write_pem\<close> for
  the identity store, \<open>write_pems\<close> fails with that very error in the state the identity
  step left: no file has changed, so no trust PEM file is written, and the calls made are
  among the check and the reading of the password file, the loading of the identity store
  and the opening of the identity PEM file; the trust store is not loaded.

  When the identity step succeeds, its five calls have been made and the identity PEM
  file is written before anything is done for the trust store; \<open>write_pems\<close> then gives
  what the trust step gives in that state, its error if it fails, and every further call
  comes after the identity calls and concerns the password file, the trust store or the
  trust PEM file. This holds whether or not the trust step succeeds.

  When the whole call succeeds, the five calls for the identity store come before the
  five calls for the trust store.
\<close>

theorem fail_fast:
  "(get_key_store_pwd cfg w = (Inl e, w1) \<or>
    (\<exists>k_pw w0. get_key_store_pwd cfg w = (Inr k_pw, w0) \<and>
       write_pem loads (cwd w @ ''/'' @ K_CERTIFICATE_CONFIG cfg) k_pw
         (cwd w @ ''/'' @ PEM_K_CERTIFICATE_CONFIG cfg) w0 = (Inl e, w1)) \<longrightarrow>
      write_pems cfg loads w = (Inl e, w1) \<and>
      files w1 = files w \<and>
      (\<forall>ev \<in> set (drop (length (trace w)) (trace w1)).
         ev = Exists (cwd w @ ''/'' @ CRYPTO_MATERIAL_PASSWORD cfg) \<or>
         ev = OpenRead (cwd w @ ''/'' @ CRYPTO_MATERIAL_PASSWORD cfg) \<or>
         (\<exists>pw. ev = Load (cwd w @ ''/'' @ K_CERTIFICATE_CONFIG cfg) pw) \<or>
         ev = OpenWrite (cwd w @ ''/'' @ PEM_K_CERTIFICATE_CONFIG cfg))) \<and>
   (get_key_store_pwd cfg w = (Inr i_pw, wi) \<and>
    write_pem loads (cwd w @ ''/'' @ K_CERTIFICATE_CONFIG cfg) i_pw
      (cwd w @ ''/'' @ PEM_K_CERTIFICATE_CONFIG cfg) wi = (Inr (), w2) \<longrightarrow>
      (\<exists>k_pem.
         drop (length (trace w)) (trace w2) =
           [Exists (cwd w @ ''/'' @ CRYPTO_MATERIAL_PASSWORD cfg),
            OpenRead (cwd w @ ''/'' @ CRYPTO_MATERIAL_PASSWORD cfg),
            Load (cwd w @ ''/'' @ K_CERTIFICATE_CONFIG cfg) i_pw,
            OpenWrite (cwd w @ ''/'' @ PEM_K_CERTIFICATE_CONFIG cfg),
            Write (cwd w @ ''/'' @ PEM_K_CERTIFICATE_CONFIG cfg) k_pem] \<and>
         files w2 = (files w)(cwd w @ ''/'' @ PEM_K_CERTIFICATE_CONFIG cfg \<mapsto> File k_pem)) \<and>
      write_pems cfg loads w =
        (case get_trust_store_pwd cfg w2 of
           (Inl e, w3) \<Rightarrow> (Inl e, w3)
         | (Inr t_pw, w3) \<Rightarrow>
             write_pem loads (cwd w @ ''/'' @ T_CERTIFICATE_CONFIG cfg) t_pw
               (cwd w @ ''/'' @ PEM_T_CERTIFICATE_CONFIG cfg) w3) \<and>
      (\<exists>evs. trace (snd (write_pems cfg loads w)) =
               trace w2 @ Exists (cwd w @ ''/'' @ CRYPTO_MATERIAL_PASSWORD cfg) # evs \<and>
             (\<forall>ev \<in> set evs.
                ev = OpenRead (cwd w @ ''/'' @ CRYPTO_MATERIAL_PASSWORD cfg) \<or>
                (\<exists>pw. ev = Load (cwd w @ ''/'' @ T_CERTIFICATE_CONFIG cfg) pw) \<or>
                ev = OpenWrite (cwd w @ ''/'' @ PEM_T_CERTIFICATE_CONFIG cfg) \<or>
                (\<exists>s. ev = Write (cwd w @ ''/'' @ PEM_T_CERTIFICATE_CONFIG cfg) s)))) \<and>
   (write_pems cfg loads w = (Inr (), w') \<longrightarrow>
      (\<exists>k_pw k_pem t_pw t_pem.
         trace w' = trace w @
           [Exists (cwd w @ ''/'' @ CRYPTO_MATERIAL_PASSWORD cfg),
            OpenRead (cwd w @ ''/'' @ CRYPTO_MATERIAL_PASSWORD cfg),
            Load (cwd w @ ''/'' @ K_CERTIFICATE_CONFIG cfg) k_pw,
            OpenWrite (cwd w @ ''/'' @ PEM_K_CERTIFICATE_CONFIG cfg),
            Write (cwd w @ ''/'' @ PEM_K_CERTIFICATE_CONFIG cfg) k_pem] @
           [Exists (cwd w @ ''/'' @ CRYPTO_MATERIAL_PASSWORD cfg),
            OpenRead (cwd w @ ''/'' @ CRYPTO_MATERIAL_PASSWORD cfg),
            Load (cwd w @ ''/'' @ T_CERTIFICATE_CONFIG cfg) t_pw,
            OpenWrite (cwd w @ ''/'' @ PEM_T_CERTIFICATE_CONFIG cfg),
            Write (cwd w @ ''/'' @ PEM_T_CERTIFICATE_CONFIG cfg) t_pem]))"
proof -
  let ?pp = "cwd w @ ''/'' @ CRYPTO_MATERIAL_PASSWORD cfg"
  let ?kj = "cwd w @ ''/'' @ K_CERTIFICATE_CONFIG cfg"
  let ?kp = "cwd w @ ''/'' @ PEM_K_CERTIFICATE_CONFIG cfg"
  let ?tj = "cwd w @ ''/'' @ T_CERTIFICATE_CONFIG cfg"
  let ?tp = "cwd w @ ''/'' @ PEM_T_CERTIFICATE_CONFIG cfg"
  have failing:
    "get_key_store_pwd cfg w = (Inl e, w1) \<or>
      (\<exists>k_pw w0. get_key_store_pwd cfg w = (Inr k_pw, w0) \<and>
         write_pem loads ?kj k_pw ?kp w0 = (Inl e, w1)) \<longrightarrow>
      write_pems cfg loads w = (Inl e, w1) \<and> files w1 = files w \<and>
      (\<forall>ev \<in> set (drop (length (trace w)) (trace w1)).
         ev = Exists ?pp \<or> ev = OpenRead ?pp \<or> (\<exists>pw. ev = Load ?kj pw) \<or> ev = OpenWrite ?kp)"
  proof
    let ?new = "drop (length (trace w)) (trace w1)"
    assume fail: "get_key_store_pwd cfg w = (Inl e, w1) \<or>
      (\<exists>k_pw w0. get_key_store_pwd cfg w = (Inr k_pw, w0) \<and> write_pem loads ?kj k_pw ?kp w0 = (Inl e, w1))"
    note facts = identity_step_fails [OF fail refl refl refl refl refl]
    from facts(3) obtain pw where
      "trace w1 = trace w @ [Exists ?pp] \<or>
       trace w1 = trace w @ [Exists ?pp, OpenRead ?pp] \<or>
       trace w1 = trace w @ [Exists ?pp, OpenRead ?pp, Load ?kj pw] \<or>
       trace w1 = trace w @ [Exists ?pp, OpenRead ?pp, Load ?kj pw, OpenWrite ?kp]"
      by blast
    then have "?new = [Exists ?pp] \<or> ?new = [Exists ?pp, OpenRead ?pp] \<or>
       ?new = [Exists ?pp, OpenRead ?pp, Load ?kj pw] \<or>
       ?new = [Exists ?pp, OpenRead ?pp, Load ?kj pw, OpenWrite ?kp]"
      by (elim disjE) (simp_all only: new_events simp_thms)
    then have "\<forall>ev \<in> set ?new.
           ev = Exists ?pp \<or> ev = OpenRead ?pp \<or> (\<exists>pw. ev = Load ?kj pw) \<or> ev = OpenWrite ?kp"
      by (elim disjE) (simp_all only: list.set ball_simps simp_thms, blast+)
    with facts(1,2) show "write_pems cfg loads w = (Inl e, w1) \<and> files w1 = files w \<and>
        (\<forall>ev \<in> set ?new.
           ev = Exists ?pp \<or> ev = OpenRead ?pp \<or> (\<exists>pw. ev = Load ?kj pw) \<or> ev = OpenWrite ?kp)"
      by (intro conjI)
  qed
  have continuing:
    "get_key_store_pwd cfg w = (Inr i_pw, wi) \<and> write_pem loads ?kj i_pw ?kp wi = (Inr (), w2) \<longrightarrow>
      (\<exists>k_pem.
         drop (length (trace w)) (trace w2) =
           [Exists ?pp, OpenRead ?pp, Load ?kj i_pw, OpenWrite ?kp, Write ?kp k_pem] \<and>
         files w2 = (files w)(?kp \<mapsto> File k_pem)) \<and>
      write_pems cfg loads w =
        (case get_trust_store_pwd cfg w2 of
           (Inl e, w3) \<Rightarrow> (Inl e, w3)
         | (Inr t_pw, w3) \<Rightarrow> write_pem loads ?tj t_pw ?tp w3) \<and>
      (\<exists>evs. trace (snd (write_pems cfg loads w)) = trace w2 @ Exists ?pp # evs \<and>
             (\<forall>ev \<in> set evs.
                ev = OpenRead ?pp \<or> (\<exists>pw. ev = Load ?tj pw) \<or> ev = OpenWrite ?tp \<or>
                (\<exists>s. ev = Write ?tp s)))"
  proof
    assume "get_key_store_pwd cfg w = (Inr i_pw, wi) \<and> write_pem loads ?kj i_pw ?kp wi = (Inr (), w2)"
    then have rd: "get_key_store_pwd cfg w = (Inr i_pw, wi)"
      and wr: "write_pem loads ?kj i_pw ?kp wi = (Inr (), w2)"
      by simp_all
    from identity_step_done [OF rd wr refl] obtain k_pem where
      w2: "w2 = w\<lparr>trace := trace w @ [Exists ?pp, OpenRead ?pp, Load ?kj i_pw, OpenWrite ?kp, Write ?kp k_pem],
                   files := (files w)(?kp \<mapsto> File k_pem)\<rparr>"
      by blast
    then have tr: "trace w2 = trace w @ [Exists ?pp, OpenRead ?pp, Load ?kj i_pw, OpenWrite ?kp, Write ?kp k_pem]"
      and fl: "files w2 = (files w)(?kp \<mapsto> File k_pem)" and cw: "cwd w2 = cwd w"
      by simp_all
    from new_events [OF tr] fl have first:
      "\<exists>k_pem. drop (length (trace w)) (trace w2) =
           [Exists ?pp, OpenRead ?pp, Load ?kj i_pw, OpenWrite ?kp, Write ?kp k_pem] \<and>
         files w2 = (files w)(?kp \<mapsto> File k_pem)"
      by blast
    have eq: "write_pems cfg loads w =
        (case get_trust_store_pwd cfg w2 of
           (Inl e, w3) \<Rightarrow> (Inl e, w3)
         | (Inr t_pw, w3) \<Rightarrow> write_pem loads ?tj t_pw ?tp w3)"
      by (rule write_pems_after_identity [OF rd wr refl refl refl refl])
    have pp2: "?pp = cwd w2 @ ''/'' @ CRYPTO_MATERIAL_PASSWORD cfg"
      by (simp only: cw)
    from trust_step_events [OF pp2, of loads ?tj ?tp]
    have after: "\<exists>evs. trace (snd (write_pems cfg loads w)) = trace w2 @ Exists ?pp # evs \<and>
             (\<forall>ev \<in> set evs.
                ev = OpenRead ?pp \<or> (\<exists>pw. ev = Load ?tj pw) \<or> ev = OpenWrite ?tp \<or>
                (\<exists>s. ev = Write ?tp s))"
      by (simp only: eq)
    from first eq after show
     "(\<exists>k_pem.
         drop (length (trace w)) (trace w2) =
           [Exists ?pp, OpenRead ?pp, Load ?kj i_pw, OpenWrite ?kp, Write ?kp k_pem] \<and>
         files w2 = (files w)(?kp \<mapsto> File k_pem)) \<and>
      write_pems cfg loads w =
        (case get_trust_store_pwd cfg w2 of
           (Inl e, w3) \<Rightarrow> (Inl e, w3)
         | (Inr t_pw, w3) \<Rightarrow> write_pem loads ?tj t_pw ?tp w3) \<and>
      (\<exists>evs. trace (snd (write_pems cfg loads w)) = trace w2 @ Exists ?pp # evs \<and>
             (\<forall>ev \<in> set evs.
                ev = OpenRead ?pp \<or> (\<exists>pw. ev = Load ?tj pw) \<or> ev = OpenWrite ?tp \<or>
                (\<exists>s. ev = Write ?tp s)))"
      by (intro conjI)
  qed
  have succeeding:
    "write_pems cfg loads w = (Inr (), w') \<longrightarrow>
      (\<exists>k_pw k_pem t_pw t_pem.
         trace w' = trace w @
           [Exists ?pp, OpenRead ?pp, Load ?kj k_pw, OpenWrite ?kp, Write ?kp k_pem] @
           [Exists ?pp, OpenRead ?pp, Load ?tj t_pw, OpenWrite ?tp, Write ?tp t_pem])"
  proof
    assume "write_pems cfg loads w = (Inr (), w')"
    from write_pems_success [OF this refl refl refl refl refl]
    obtain content k_pem content' t_pem where
      "trace w' = trace w @
        [Exists ?pp, OpenRead ?pp, Load ?kj (filter keep_char content), OpenWrite ?kp, Write ?kp k_pem,
         Exists ?pp, OpenRead ?pp, Load ?tj (filter keep_char content'), OpenWrite ?tp, Write ?tp t_pem]"
      by blast
    then have "trace w' = trace w @
        [Exists ?pp, OpenRead ?pp, Load ?kj (filter keep_char content), OpenWrite ?kp, Write ?kp k_pem] @
        [Exists ?pp, OpenRead ?pp, Load ?tj (filter keep_char content'), OpenWrite ?tp, Write ?tp t_pem]"
      by simp
    then show "\<exists>k_pw k_pem t_pw t_pem.
           trace w' = trace w @
             [Exists ?pp, OpenRead ?pp, Load ?kj k_pw, OpenWrite ?kp, Write ?kp k_pem] @
             [Exists ?pp, OpenRead ?pp, Load ?tj t_pw, OpenWrite ?tp, Write ?tp t_pem]"
      by blast
  qed
  from failing continuing succeeding show ?thesis by (intro conjI)
qed

theorem fail_fast_witness:
  "(write_pems example_cfg example_loads (example_world ''wrong'') =
     (Inl (KeystoreException ''bad password''),
      (example_world ''wrong'')\<lparr>trace :=
         [Exists ''/srv/material_passwd'', OpenRead ''/srv/material_passwd'',
          Load ''/srv/k_certificate'' ''wrong'']\<rparr>) \<and>
    files ((example_world ''wrong'')\<lparr>trace :=
         [Exists ''/srv/material_passwd'', OpenRead ''/srv/material_passwd'',
          Load ''/srv/k_certificate'' ''wrong'']\<rparr>) ''/srv/t_certificate.pem'' = None) \<and>
   (\<exists>w'. write_pems example_cfg example_loads_trust_locked (example_world ''secret'') =
           (Inl (KeystoreException ''bad password''), w') \<and>
         trace w' =
           [Exists ''/srv/material_passwd'', OpenRead ''/srv/material_passwd'',
            Load ''/srv/k_certificate'' ''secret'', OpenWrite ''/srv/k_certificate.pem'',
            Write ''/srv/k_certificate.pem'' (render_blocks (expected_blocks example_store)),
            Exists ''/srv/material_passwd'', OpenRead ''/srv/material_passwd'',
            Load ''/srv/t_certificate'' ''secret''] \<and>
         files w' ''/srv/k_certificate.pem'' =
           Some (File (render_blocks (expected_blocks example_store))) \<and>
         files w' ''/srv/t_certificate.pem'' = None) \<and>
   (\<exists>k_pw k_pem t_pw t_pem.
      trace (snd (write_pems example_cfg example_loads (example_world ''secret''))) =
        [Exists ''/srv/material_passwd'', OpenRead ''/srv/material_passwd'',
         Load ''/srv/k_certificate'' k_pw, OpenWrite ''/srv/k_certificate.pem'',
         Write ''/srv/k_certificate.pem'' k_pem] @
        [Exists ''/srv/material_passwd'', OpenRead ''/srv/material_passwd'',
         Load ''/srv/t_certificate'' t_pw, OpenWrite ''/srv/t_certificate.pem'',
         Write ''/srv/t_certificate.pem'' t_pem])"
proof (intro conjI)
  let ?w = "example_world ''wrong''"
  let ?wa = "?w\<lparr>trace := [Exists ''/srv/material_passwd'', OpenRead ''/srv/material_passwd'']\<rparr>"
  let ?wb = "?w\<lparr>trace := [Exists ''/srv/material_passwd'', OpenRead ''/srv/material_passwd'',
                            Load ''/srv/k_certificate'' ''wrong'']\<rparr>"
  let ?e = "KeystoreException ''bad password''"
  have "files ?wa ''/srv/k_certificate'' = Some (File ''identity'')"
    by (simp add: example_nodes)
  from write_pem_convert_fails(1) [OF example_wrong_convert [OF this], of "''/srv/k_certificate.pem''"]
  have wr: "write_pem example_loads ''/srv/k_certificate'' ''wrong'' ''/srv/k_certificate.pem'' ?wa =
      (Inl ?e, ?wb)"
    by simp
  have "get_key_store_pwd example_cfg ?w = (Inr ''wrong'', ?wa) \<and>
      write_pem example_loads (cwd ?w @ ''/'' @ K_CERTIFICATE_CONFIG example_cfg) ''wrong''
        (cwd ?w @ ''/'' @ PEM_K_CERTIFICATE_CONFIG example_cfg) ?wa = (Inl ?e, ?wb)"
    by (simp only: example_paths example_wrong_read wr simp_thms)
  then have "get_key_store_pwd example_cfg ?w = (Inl ?e, ?wb) \<or>
      (\<exists>k_pw w0. get_key_store_pwd example_cfg ?w = (Inr k_pw, w0) \<and>
         write_pem example_loads (cwd ?w @ ''/'' @ K_CERTIFICATE_CONFIG example_cfg) k_pw
           (cwd ?w @ ''/'' @ PEM_K_CERTIFICATE_CONFIG example_cfg) w0 = (Inl ?e, ?wb))"
    by blast
  from fail_fast [where cfg = example_cfg and w = ?w and e = ?e and ?w1.0 = ?wb
      and loads = example_loads, THEN conjunct1, rule_format, OF this]
  have stopped: "write_pems example_cfg example_loads ?w = (Inl ?e, ?wb)" and "files ?wb = files ?w"
    by blast+
  from stopped(1) show "write_pems example_cfg example_loads ?w = (Inl ?e, ?wb)" .
  from \<open>files ?wb = files ?w\<close> show "files ?wb ''/srv/t_certificate.pem'' = None"
    by (simp add: example_nodes)
next
  let ?w = "example_world ''secret''"
  let ?pem = "render_blocks (expected_blocks example_store)"
  let ?wa = "?w\<lparr>trace := [Exists ''/srv/material_passwd'', OpenRead ''/srv/material_passwd'']\<rparr>"
  let ?five = "[Exists ''/srv/material_passwd'', OpenRead ''/srv/material_passwd'',
         Load ''/srv/k_certificate'' ''secret'', OpenWrite ''/srv/k_certificate.pem'',
         Write ''/srv/k_certificate.pem'' ?pem]"
  let ?wb = "?w\<lparr>trace := ?five,
      files := (files ?w)(''/srv/k_certificate.pem'' \<mapsto> File ?pem)\<rparr>"
  let ?wc = "?w\<lparr>trace := ?five @ [Exists ''/srv/material_passwd'', OpenRead ''/srv/material_passwd''],
      files := (files ?w)(''/srv/k_certificate.pem'' \<mapsto> File ?pem)\<rparr>"
  let ?e = "KeystoreException ''bad password''"
  have "get_key_store_pwd example_cfg ?w = (Inr ''secret'', ?wa) \<and>
      write_pem example_loads_trust_locked (cwd ?w @ ''/'' @ K_CERTIFICATE_CONFIG example_cfg) ''secret''
        (cwd ?w @ ''/'' @ PEM_K_CERTIFICATE_CONFIG example_cfg) ?wa = (Inr (), ?wb)"
    by (simp only: example_paths example_secret_read example_locked_identity simp_thms)
  from fail_fast [where cfg = example_cfg and w = ?w and loads = example_loads_trust_locked
      and i_pw = "''secret''" and wi = ?wa and ?w2.0 = ?wb,
      THEN conjunct2, THEN conjunct1, rule_format, OF this, THEN conjunct2, THEN conjunct1]
  have "write_pems example_cfg example_loads_trust_locked ?w =
        (case get_trust_store_pwd example_cfg ?wb of
           (Inl e, w3) \<Rightarrow> (Inl e, w3)
         | (Inr t_pw, w3) \<Rightarrow>
             write_pem example_loads_trust_locked ''/srv/t_certificate'' t_pw
               ''/srv/t_certificate.pem'' w3)"
    by (simp only: example_paths)
  also have "\<dots> = write_pem example_loads_trust_locked ''/srv/t_certificate'' ''secret''
               ''/srv/t_certificate.pem'' ?wc"
    by (simp only: example_second_read prod.case sum.case)
  also have "\<dots> = (Inl ?e, ?wc\<lparr>trace := trace ?wc @ [Load ''/srv/t_certificate'' ''secret'']\<rparr>)"
    by (rule example_locked_trust) (simp add: example_nodes)
  finally have run: "write_pems example_cfg example_loads_trust_locked ?w =
      (Inl ?e, ?wc\<lparr>trace := trace ?wc @ [Load ''/srv/t_certificate'' ''secret'']\<rparr>)" .
  show "\<exists>w'. write_pems example_cfg example_loads_trust_locked ?w = (Inl ?e, w') \<and>
         trace w' =
           [Exists ''/srv/material_passwd'', OpenRead ''/srv/material_passwd'',
            Load ''/srv/k_certificate'' ''secret'', OpenWrite ''/srv/k_certificate.pem'',
            Write ''/srv/k_certificate.pem'' ?pem,
            Exists ''/srv/material_passwd'', OpenRead ''/srv/material_passwd'',
            Load ''/srv/t_certificate'' ''secret''] \<and>
         files w' ''/srv/k_certificate.pem'' = Some (File ?pem) \<and>
         files w' ''/srv/t_certificate.pem'' = None"
    unfolding run by (simp add: example_nodes)
next
  let ?w = "example_world ''secret''"
  have run: "write_pems example_cfg example_loads ?w = (Inr (), snd (write_pems example_cfg example_loads ?w))"
    unfolding example_run by simp
  from fail_fast [where cfg = example_cfg and w = ?w and loads = example_loads
      and w' = "snd (write_pems example_cfg example_loads ?w)",
      THEN conjunct2, THEN conjunct2, rule_format, OF run]
  show "\<exists>k_pw k_pem t_pw t_pem.
      trace (snd (write_pems example_cfg example_loads ?w)) =
        [Exists ''/srv/material_passwd'', OpenRead ''/srv/material_passwd'',
         Load ''/srv/k_certificate'' k_pw, OpenWrite ''/srv/k_certificate.pem'',
         Write ''/srv/k_certificate.pem'' k_pem] @
        [Exists ''/srv/material_passwd'', OpenRead ''/srv/material_passwd'',
         Load ''/srv/t_certificate'' t_pw, OpenWrite ''/srv/t_certificate.pem'',
         Write ''/srv/t_certificate.pem'' t_pem]"
    by (simp only: example_paths example_password_path example_trace append_Nil)
qed

text \<open>
  Claim C9. When the conversion inside \<open>write_pem\<close> fails, \<open>write_pem\<close> fails with the
  same error, the only call made is the loading of the store, and no file is opened for
  writing or changed. When the conversion gives a text and the output path is not a
  directory, the output file is opened only after the store was loaded and converted,
  it receives the whole text in one write, and whatever was at the output path before
  is replaced by that text.
\<close>

theorem write_pem_all_or_nothing:
  "(convert_jks_to_pem loads jks_path pw w = (Inl e, w1) \<longrightarrow>
      write_pem loads jks_path pw output_path w = (Inl e, w1) \<and>
      files w1 = files w \<and>
      trace w1 = trace w @ [Load jks_path pw]) \<and>
   (convert_jks_to_pem loads jks_path pw w = (Inr pem, w1) \<and> files w output_path \<noteq> Some Dir \<longrightarrow>
      (\<exists>w2. write_pem loads jks_path pw output_path w = (Inr (), w2) \<and>
            files w2 = (files w)(output_path \<mapsto> File pem) \<and>
            trace w2 = trace w @ [Load jks_path pw, OpenWrite output_path, Write output_path pem]))"
proof (rule conjI; rule impI)
  assume "convert_jks_to_pem loads jks_path pw w = (Inl e, w1)"
  from write_pem_convert_fails(1-3) [OF this]
  show "write_pem loads jks_path pw output_path w = (Inl e, w1) \<and>
      files w1 = files w \<and> trace w1 = trace w @ [Load jks_path pw]"
    by simp
next
  assume "convert_jks_to_pem loads jks_path pw w = (Inr pem, w1) \<and> files w output_path \<noteq> Some Dir"
  then have "write_pem loads jks_path pw output_path w =
    (Inr (), w\<lparr>trace := trace w @ [Load jks_path pw, OpenWrite output_path, Write output_path pem],
              files := (files w)(output_path \<mapsto> File pem)\<rparr>)"
    by (auto intro: write_pem_converted)
  then show "\<exists>w2. write_pem loads jks_path pw output_path w = (Inr (), w2) \<and>
            files w2 = (files w)(output_path \<mapsto> File pem) \<and>
            trace w2 = trace w @ [Load jks_path pw, OpenWrite output_path, Write output_path pem]"
    by simp
qed

theorem write_pem_all_or_nothing_witness:
  "write_pem example_loads ''/srv/k_certificate'' ''wrong'' ''/srv/k_certificate.pem''
       (example_world ''wrong'') =
     (Inl (KeystoreException ''bad password''),
      (example_world ''wrong'')\<lparr>trace := [Load ''/srv/k_certificate'' ''wrong'']\<rparr>) \<and>
   files ((example_world ''wrong'')\<lparr>trace := [Load ''/srv/k_certificate'' ''wrong'']\<rparr>)
       ''/srv/k_certificate.pem'' = Some (File ''stale'') \<and>
   (\<exists>w2. write_pem example_loads ''/srv/k_certificate'' ''secret'' ''/srv/k_certificate.pem''
           (example_world ''secret'') = (Inr (), w2) \<and>
         files w2 ''/srv/k_certificate.pem'' =
           Some (File (render_blocks (expected_blocks example_store))) \<and>
         trace w2 =
           [Load ''/srv/k_certificate'' ''secret'', OpenWrite ''/srv/k_certificate.pem'',
            Write ''/srv/k_certificate.pem'' (render_blocks (expected_blocks example_store))])"
proof -
  let ?bad = "example_world ''wrong''"
  let ?bad1 = "?bad\<lparr>trace := [Load ''/srv/k_certificate'' ''wrong'']\<rparr>"
  let ?good = "example_world ''secret''"
  let ?pem = "render_blocks (expected_blocks example_store)"
  have "convert_jks_to_pem example_loads ''/srv/k_certificate'' ''wrong'' ?bad =
      (Inl (KeystoreException ''bad password''), ?bad1)"
    using example_wrong_convert [OF example_nodes(1), of "''wrong''"]
    by (simp only: example_trace append_Nil)
  from write_pem_all_or_nothing [of example_loads "''/srv/k_certificate''" "''wrong''" ?bad
      "KeystoreException ''bad password''" ?bad1 "''/srv/k_certificate.pem''",
      THEN conjunct1, rule_format, OF this]
  have failed: "write_pem example_loads ''/srv/k_certificate'' ''wrong'' ''/srv/k_certificate.pem'' ?bad =
      (Inl (KeystoreException ''bad password''), ?bad1)"
    and kept: "files ?bad1 = files ?bad"
    by blast+
  have stale: "files ?bad1 ''/srv/k_certificate.pem'' = Some (File ''stale'')"
    unfolding kept by (rule example_nodes)
  have conv: "convert_jks_to_pem example_loads ''/srv/k_certificate'' ''secret'' ?good =
      (Inr ?pem, log_event (Load ''/srv/k_certificate'' ''secret'') ?good)"
    by (rule convert_loaded [OF example_load])
  have free: "files ?good ''/srv/k_certificate.pem'' \<noteq> Some Dir"
    by (simp add: example_nodes)
  from write_pem_all_or_nothing [where output_path = "''/srv/k_certificate.pem''",
      THEN conjunct2, rule_format, OF conjI [OF conv free]]
  obtain w2 where
    "write_pem example_loads ''/srv/k_certificate'' ''secret'' ''/srv/k_certificate.pem'' ?good = (Inr (), w2)"
    "files w2 = (files ?good)(''/srv/k_certificate.pem'' \<mapsto> File ?pem)"
    "trace w2 = trace ?good @ [Load ''/srv/k_certificate'' ''secret'', OpenWrite ''/srv/k_certificate.pem'',
            Write ''/srv/k_certificate.pem'' ?pem]"
    by blast
  then have "\<exists>w2. write_pem example_loads ''/srv/k_certificate'' ''secret'' ''/srv/k_certificate.pem''
           ?good = (Inr (), w2) \<and>
         files w2 ''/srv/k_certificate.pem'' = Some (File ?pem) \<and>
         trace w2 = [Load ''/srv/k_certificate'' ''secret'', OpenWrite ''/srv/k_certificate.pem'',
            Write ''/srv/k_certificate.pem'' ?pem]"
    by (simp add: example_trace)
  with failed stale show ?thesis by (intro conjI)
qed

text \<open>
  Claim C10. For the empty byte sequence and any label \<open>L\<close>, the block is the begin
  marker, a line feed, a second line feed and the end marker with its line feed: the
  wrapped body has no line at all, so an empty line stands between the markers.
\<close>

theorem empty_input_block:
  "bytes_to_pem_str [] L = ''-----BEGIN '' @ L @ ''-----'' @ [LF] @ [LF] @ ''-----END '' @ L @ ''-----'' @ [LF]
   \<and> textwrap_wrap (b64encode []) 64 = []"
  by (simp add: bytes_to_pem_str_def wrap_empty)

theorem empty_input_block_witness:
  "bytes_to_pem_str [] ''CERTIFICATE'' = ''-----BEGIN CERTIFICATE-----'' @ [LF, LF] @ ''-----END CERTIFICATE-----'' @ [LF]"
  using empty_input_block [of "''CERTIFICATE''"] by simp

end
